theory Spec2Isabelle
  imports Main "HOL-Library.Word"
begin

section \<open>pglock: a PostgreSQL-backed distributed lock (src/pglock/client.go)\<close>

text \<open>
  The client keeps no state of its own besides its configuration: every operation is a
  serializable transaction against one table \<open>(name, record_version_number, data)\<close> and
  its sequence. The embedding passes the database (the \<open>world\<close>) and the lock handle
  explicitly: a Go method \<open>func (c *Client) op(ctx, l *Lock) error\<close> becomes a function
  from the handle and the world to the returned error (\<open>None\<close> is Go's \<open>nil\<close>), the
  updated handle and the updated world. Calls to the logger write to a sink and are left
  out.
\<close>

subsection \<open>Errors\<close>

text \<open>
  What the database driver can hand back: \<open>sql.ErrNoRows\<close>, a \<open>*net.OpError\<close>, a
  \<open>*pq.Error\<close> with its SQLSTATE code, or any other error value (a cancelled context,
  a scan conversion error, ...).
\<close>

datatype driver_error =
    SqlErrNoRows
  | NetOpError
  | PqError string
  | DriverOther string

text \<open>The kinds of the errors package that the client uses.\<close>

datatype kind = Other | NotExist | Unavailable | FailedPrecondition

text \<open>
  The errors of the client: its five package-level error values, an error built by
  \<open>errors.E(kind, err, message)\<close>, a driver error passed on as it is, and an error
  wrapped with a message by \<open>errors.Wrapf\<close>.
\<close>

datatype error =
    ErrNotPostgreSQLDriver
  | ErrNotAcquired
  | ErrLockAlreadyReleased
  | ErrLockNotFound
  | ErrDurationTooSmall
  | E kind driver_error string
  | Raw driver_error
  | Wrapped error string

definition serializationErrorCode :: string where
  "serializationErrorCode = ''40001''"

text \<open>
  \<open>typedError\<close>: \<open>nil\<close> stays \<open>nil\<close>; no-rows becomes \<open>NotExist\<close>, a network error
  \<open>Unavailable\<close>, a PostgreSQL error with SQLSTATE 40001 \<open>FailedPrecondition\<close>; every
  other error is returned unwrapped.
\<close>

fun typedError :: "driver_error option \<Rightarrow> string \<Rightarrow> error option" where
  "typedError None v = None"
| "typedError (Some SqlErrNoRows) v = Some (E NotExist SqlErrNoRows v)"
| "typedError (Some NetOpError) v = Some (E Unavailable NetOpError v)"
| "typedError (Some (PqError code)) v =
     (if code = serializationErrorCode then Some (E FailedPrecondition (PqError code) v)
      else Some (Raw (PqError code)))"
| "typedError (Some (DriverOther m)) v = Some (Raw (DriverOther m))"

text \<open>
  Modelled from the spec: \<open>errors.Is(kind, err)\<close> of the errors package, which is not
  under src/. An error carries the kind it was built with; the package-level values built
  from a message alone have kind \<open>Other\<close>, which matches no kind, and \<open>ErrLockNotFound\<close>
  is built with \<open>NotExist\<close>. A \<open>nil\<close> error and a driver error have no kind, and a
  wrapped error has the kind of the error it wraps.
\<close>

fun errors_Is :: "kind \<Rightarrow> error option \<Rightarrow> bool" where
  "errors_Is k None = False"
| "errors_Is k (Some (E k' d v)) = (k' \<noteq> Other \<and> k' = k)"
| "errors_Is k (Some ErrLockNotFound) = (k = NotExist)"
| "errors_Is k (Some (Wrapped e v)) = errors_Is k (Some e)"
| "errors_Is k (Some e) = False"

text \<open>
  Modelled from the spec: \<open>errors.Wrapf(err, format, args)\<close> of the errors package:
  \<open>nil\<close> stays \<open>nil\<close>, any other error is wrapped with the message.
\<close>

fun errors_Wrapf :: "error option \<Rightarrow> string \<Rightarrow> error option" where
  "errors_Wrapf None v = None"
| "errors_Wrapf (Some e) v = Some (Wrapped e v)"

subsection \<open>Client construction\<close>

text \<open>
  \<open>time.Duration\<close> is a signed 64-bit count of nanoseconds: a 64-bit word read with
  \<open>sint\<close>, compared with the signed orders, and multiplied with wrap-around as Go does.
\<close>

type_synonym duration = "64 word"

definition Second :: duration where
  "Second = 1000000000"

definition DefaultTableName :: string where
  "DefaultTableName = ''locks''"

definition DefaultLeaseDuration :: duration where
  "DefaultLeaseDuration = 20 * Second"

definition DefaultHeartbeatFrequency :: duration where
  "DefaultHeartbeatFrequency = 5 * Second"

text \<open>The driver behind a \<open>*sql.DB\<close>; a \<open>nil\<close> handle is \<open>None\<close>.\<close>

datatype sql_driver = PqDriver | OtherDriver

text \<open>The logger: the discarding default, or one injected by the caller.\<close>

datatype logger = DiscardLogger | CustomLogger nat

record Client =
  db :: sql_driver
  tableName :: string
  client_leaseDuration :: duration
  heartbeatFrequency :: duration
  log :: logger

datatype ClientOption =
    WithLogger logger
  | WithLeaseDuration duration
  | WithHeartbeatFrequency duration
  | WithCustomTable string

fun apply_ClientOption :: "ClientOption \<Rightarrow> Client \<Rightarrow> Client" where
  "apply_ClientOption (WithLogger lg) c = c\<lparr>log := lg\<rparr>"
| "apply_ClientOption (WithLeaseDuration d) c = c\<lparr>client_leaseDuration := d\<rparr>"
| "apply_ClientOption (WithHeartbeatFrequency d) c = c\<lparr>heartbeatFrequency := d\<rparr>"
| "apply_ClientOption (WithCustomTable t) c = c\<lparr>tableName := t\<rparr>"

definition isDurationTooSmall :: "Client \<Rightarrow> bool" where
  "isDurationTooSmall c =
     (0 <s heartbeatFrequency c \<and> client_leaseDuration c <s 2 * heartbeatFrequency c)"

definition default_Client :: "sql_driver \<Rightarrow> Client" where
  "default_Client d =
     \<lparr>db = d, tableName = DefaultTableName, client_leaseDuration = DefaultLeaseDuration,
      heartbeatFrequency = DefaultHeartbeatFrequency, log = DiscardLogger\<rparr>"

definition New :: "sql_driver option \<Rightarrow> ClientOption list \<Rightarrow> error + Client" where
  "New d opts =
     (case d of
        None \<Rightarrow> Inl ErrNotPostgreSQLDriver
      | Some OtherDriver \<Rightarrow> Inl ErrNotPostgreSQLDriver
      | Some PqDriver \<Rightarrow>
          (let c = foldl (\<lambda>c opt. apply_ClientOption opt c) (default_Client PqDriver) opts
           in if isDurationTooSmall c then Inl ErrDurationTooSmall else Inr c))"

subsection \<open>The lock handle\<close>

text \<open>
  The \<open>Lock\<close> struct, as \<open>client.go\<close> uses its fields. \<open>heartbeatCancel\<close> is a
  function value: \<open>None\<close> is the no-op \<open>func() {}\<close> that \<open>newLock\<close> installs,
  \<open>Some i\<close> the cancel function of the context with identifier \<open>i\<close>. The record
  version number is a BIGINT drawn from a PostgreSQL sequence, which raises at its maximum
  instead of wrapping; the Go code only stores and compares it, so it is an \<open>int\<close>.
  The mutex \<open>mu\<close> makes \<open>storeRelease\<close> and \<open>storeHeartbeat\<close> atomic on a handle, as
  every function of this embedding is.
\<close>

type_synonym bytes = "8 word list"

record Lock =
  name :: string
  heartbeatCancel :: "nat option"
  leaseDuration :: duration
  data :: bytes
  isReleased :: bool
  recordVersionNumber :: int
  failIfLocked :: bool
  keepOnRelease :: bool
  replaceData :: bool

text \<open>
  Modelled from the spec: the per-call options of \<open>Acquire\<close>, whose definitions are not
  under src/: a data payload, a custom lease, \<open>failIfLocked\<close>, \<open>keepOnRelease\<close> and
  \<open>replaceData\<close>.
\<close>

datatype LockOption =
    WithData bytes
  | WithCustomLease duration
  | FailIfLocked
  | KeepOnRelease
  | ReplaceData

fun apply_LockOption :: "LockOption \<Rightarrow> Lock \<Rightarrow> Lock" where
  "apply_LockOption (WithData d) l = l\<lparr>data := d\<rparr>"
| "apply_LockOption (WithCustomLease d) l = l\<lparr>leaseDuration := d\<rparr>"
| "apply_LockOption FailIfLocked l = l\<lparr>failIfLocked := True\<rparr>"
| "apply_LockOption KeepOnRelease l = l\<lparr>keepOnRelease := True\<rparr>"
| "apply_LockOption ReplaceData l = l\<lparr>replaceData := True\<rparr>"

text \<open>\<open>newLock\<close>: the fields it does not set have Go's zero values.\<close>

definition newLock :: "Client \<Rightarrow> string \<Rightarrow> LockOption list \<Rightarrow> Lock" where
  "newLock c n opts =
     foldl (\<lambda>l opt. apply_LockOption opt l)
       \<lparr>name = n, heartbeatCancel = None, leaseDuration = client_leaseDuration c, data = [],
        isReleased = False, recordVersionNumber = 0, failIfLocked = False,
        keepOnRelease = False, replaceData = False\<rparr>
       opts"

text \<open>
  Modelled from the spec: the accessor \<open>IsReleased() \<rightarrow> bool\<close> of the handle, which is
  not under src/: it reads the flag.
\<close>

definition IsReleased :: "Lock \<Rightarrow> bool" where
  "IsReleased l = isReleased l"

subsection \<open>The database and the rest of the world\<close>

text \<open>
  A row of the lock table, keyed by its \<open>name\<close>: \<open>record_version_number\<close> is \<open>None\<close>
  for SQL NULL. \<open>data\<close> is read into a Go byte slice, where NULL and the empty payload
  are both the slice of length 0.
\<close>

record row =
  record_version_number :: "int option"
  row_data :: bytes

type_synonym locks_table = "string \<Rightarrow> row option"

text \<open>
  A context is the background context, a caller's context that its owner cancels at a
  time of the clock, or a child made by \<open>context.WithCancel\<close>, with its identifier.
\<close>

datatype ctx = Background | CancelAt nat | WithCancel nat ctx

text \<open>
  The world: the table of the client and the next value of its sequence; the driver's
  behaviour (\<open>driver w k\<close> is the error of the \<open>k\<close>-th call into the driver, \<open>None\<close>
  when it succeeds: lost connections, serialization failures, timeouts of the lease-long
  deadline, a missing table, an exhausted sequence) and the number of calls made so far;
  the contexts cancelled through their cancel functions and the number of contexts made;
  the goroutines started (each heartbeat, by its context); the clock in nanoseconds and the
  durations slept.
\<close>

record world =
  locks :: locks_table
  rvn_seq :: int
  driver :: "nat \<Rightarrow> driver_error option"
  calls :: nat
  cancelled :: "nat \<Rightarrow> bool"
  ctx_count :: nat
  goroutines :: "ctx list"
  clock :: nat
  sleeps :: "duration list"

definition driver_call :: "world \<Rightarrow> driver_error option \<times> world" where
  "driver_call w = (driver w (calls w), w\<lparr>calls := Suc (calls w)\<rparr>)"

fun ctx_Done :: "world \<Rightarrow> ctx \<Rightarrow> bool" where
  "ctx_Done w Background = False"
| "ctx_Done w (CancelAt t) = (t \<le> clock w)"
| "ctx_Done w (WithCancel i parent) = (cancelled w i \<or> ctx_Done w parent)"

text \<open>Calling a cancel function.\<close>

fun call_cancel :: "nat option \<Rightarrow> world \<Rightarrow> world" where
  "call_cancel None w = w"
| "call_cancel (Some i) w = w\<lparr>cancelled := (cancelled w)(i := True)\<rparr>"

text \<open>\<open>time.Sleep\<close>: a duration that is not positive returns at once.\<close>

definition time_Sleep :: "duration \<Rightarrow> world \<Rightarrow> world" where
  "time_Sleep d w =
     w\<lparr>clock := clock w + (if 0 <s d then unat d else 0), sleeps := sleeps w @ [d]\<rparr>"

text \<open>
  \<open>getNextRVN\<close>: \<open>SELECT nextval\<close>. The sequence is not transactional: a value drawn
  stays drawn when the transaction is rolled back.
\<close>

definition getNextRVN :: "world \<Rightarrow> int \<times> driver_error option \<times> world" where
  "getNextRVN w =
     (case driver_call w of
        (Some err, w') \<Rightarrow> (0, Some err, w')
      | (None, w') \<Rightarrow> (rvn_seq w', None, w'\<lparr>rvn_seq := rvn_seq w' + 1\<rparr>))"

text \<open>
  The statement of \<open>storeAcquire\<close>: \<open>INSERT ... ON CONFLICT (name) DO UPDATE SET
  record_version_number = $2, data = CASE WHEN $5 THEN $3 ELSE data END WHERE
  record_version_number IS NULL OR record_version_number = $4\<close>.
\<close>

definition upsert :: "locks_table \<Rightarrow> string \<Rightarrow> int \<Rightarrow> bytes \<Rightarrow> int \<Rightarrow> bool \<Rightarrow> locks_table" where
  "upsert t n rvn d claimant replace =
     (case t n of
        None \<Rightarrow> t(n \<mapsto> \<lparr>record_version_number = Some rvn, row_data = d\<rparr>)
      | Some r \<Rightarrow>
          if record_version_number r = None \<or> record_version_number r = Some claimant
          then t(n \<mapsto> \<lparr>record_version_number = Some rvn,
                        row_data = (if replace then d else row_data r)\<rparr>)
          else t)"

text \<open>
  The statement of \<open>storeRelease\<close> and \<open>storeHeartbeat\<close>: \<open>UPDATE SET
  record_version_number = new WHERE name = $1 AND record_version_number = $2\<close>, with the
  number of rows it affected.
\<close>

definition update_rvn :: "locks_table \<Rightarrow> string \<Rightarrow> int \<Rightarrow> int option \<Rightarrow> locks_table \<times> nat" where
  "update_rvn t n old new =
     (case t n of
        None \<Rightarrow> (t, 0)
      | Some r \<Rightarrow>
          if record_version_number r = Some old
          then (t(n \<mapsto> r\<lparr>record_version_number := new\<rparr>), 1)
          else (t, 0))"

text \<open>\<open>DELETE WHERE name = $1 AND record_version_number IS NULL\<close>.\<close>

definition delete_free :: "locks_table \<Rightarrow> string \<Rightarrow> locks_table" where
  "delete_free t n =
     (case t n of
        None \<Rightarrow> t
      | Some r \<Rightarrow> if record_version_number r = None then t(n := None) else t)"

text \<open>
  \<open>SELECT record_version_number, data WHERE name = $1 FOR UPDATE\<close> scanned into an
  \<open>int64\<close> and a byte slice: no row is \<open>sql.ErrNoRows\<close>, and a NULL version number
  cannot be converted.
\<close>

definition scan_rvn_data :: "locks_table \<Rightarrow> string \<Rightarrow> world \<Rightarrow> (driver_error + int \<times> bytes) \<times> world" where
  "scan_rvn_data t n w =
     (case driver_call w of
        (Some err, w') \<Rightarrow> (Inl err, w')
      | (None, w') \<Rightarrow>
          (case t n of
             None \<Rightarrow> (Inl SqlErrNoRows, w')
           | Some r \<Rightarrow>
               (case record_version_number r of
                  None \<Rightarrow> (Inl (DriverOther ''converting NULL to int64 is unsupported''), w')
                | Some actualRVN \<Rightarrow> (Inr (actualRVN, row_data r), w'))))"

subsection \<open>Acquire\<close>

text \<open>
  \<open>storeAcquire\<close>, one attempt. The transaction works on a copy \<open>tx\<close> of the table,
  which \<open>Commit\<close> writes back; every return before it leaves the table as it was (the
  deferred \<open>cancel\<close> of the transaction's context rolls the transaction back).
\<close>

definition storeAcquire :: "Lock \<Rightarrow> world \<Rightarrow> error option \<times> Lock \<times> world" where
  "storeAcquire l w =
     (case driver_call w of
        (Some err, w1) \<Rightarrow>
          (typedError (Some err) ''cannot create transaction for lock acquisition'', l, w1)
      | (None, w1) \<Rightarrow>
     (case getNextRVN w1 of
        (rvn, Some err, w2) \<Rightarrow>
          (typedError (Some err) ''cannot run query to read record version number'', l, w2)
      | (rvn, None, w2) \<Rightarrow>
     (case driver_call w2 of
        (Some err, w3) \<Rightarrow> (typedError (Some err) ''cannot run query to acquire lock'', l, w3)
      | (None, w3) \<Rightarrow>
     (let tx = upsert (locks w3) (name l) rvn (data l) (recordVersionNumber l) (replaceData l)
      in
     (case scan_rvn_data tx (name l) w3 of
        (Inl err, w4) \<Rightarrow>
          (typedError (Some err) ''cannot load information for lock acquisition'', l, w4)
      | (Inr (actualRVN, d), w4) \<Rightarrow>
          if actualRVN \<noteq> rvn
          then (Some ErrNotAcquired, l\<lparr>recordVersionNumber := actualRVN\<rparr>, w4)
          else
          (case driver_call w4 of
             (Some err, w5) \<Rightarrow> (typedError (Some err) ''cannot commit lock acquisition'', l, w5)
           | (None, w5) \<Rightarrow>
               (None, l\<lparr>recordVersionNumber := rvn, data := d\<rparr>, w5\<lparr>locks := tx\<rparr>)))))))"

text \<open>
  \<open>tryAcquire\<close>: after a successful attempt, a child context is made, its cancel
  function stored on the handle, and the heartbeat goroutine started on it.
\<close>

definition tryAcquire :: "ctx \<Rightarrow> Lock \<times> world \<Rightarrow> error option \<times> Lock \<times> world" where
  "tryAcquire c lw =
     (case storeAcquire (fst lw) (snd lw) of
        (Some err, l, w) \<Rightarrow> (Some err, l, w)
      | (None, l, w) \<Rightarrow>
          (None, l\<lparr>heartbeatCancel := Some (ctx_count w)\<rparr>,
           w\<lparr>ctx_count := Suc (ctx_count w),
             goroutines := goroutines w @ [WithCancel (ctx_count w) c]\<rparr>))"

text \<open>
  \<open>retry\<close>: the loop has no bound, so it is a partial function: \<open>None\<close> when every
  attempt ends in a serialization failure.
\<close>

partial_function (option) retry ::
  "('s \<Rightarrow> error option \<times> 's) \<Rightarrow> 's \<Rightarrow> (error option \<times> 's) option" where
  "retry f s =
     (case f s of (err, s') \<Rightarrow>
        if errors_Is FailedPrecondition err then retry f s' else Some (err, s'))"

text \<open>
  The loop of \<open>AcquireContext\<close> on the handle that \<open>newLock\<close> made. The result is the
  returned pointer (\<open>None\<close> is \<open>nil\<close>), the returned error and the world.
\<close>

partial_function (option) AcquireContext_loop ::
  "ctx \<Rightarrow> Lock \<Rightarrow> world \<Rightarrow> (Lock option \<times> error option \<times> world) option" where
  "AcquireContext_loop c l w =
     (if ctx_Done w c then Some (None, Some ErrNotAcquired, w)
      else
        Option.bind (retry (tryAcquire c) (l, w)) (\<lambda>(err, l', w').
          if failIfLocked l' \<and> err = Some ErrNotAcquired then Some (Some l', err, w')
          else if err = Some ErrNotAcquired
          then AcquireContext_loop c l' (time_Sleep (leaseDuration l') w')
          else if err \<noteq> None then Some (None, err, w')
          else Some (Some l', None, w')))"

definition AcquireContext ::
  "Client \<Rightarrow> ctx \<Rightarrow> string \<Rightarrow> LockOption list \<Rightarrow> world \<Rightarrow> (Lock option \<times> error option \<times> world) option" where
  "AcquireContext cl c n opts w = AcquireContext_loop c (newLock cl n opts) w"

definition Acquire ::
  "Client \<Rightarrow> string \<Rightarrow> LockOption list \<Rightarrow> world \<Rightarrow> (Lock option \<times> error option \<times> world) option" where
  "Acquire cl n opts w = AcquireContext cl Background n opts w"

subsection \<open>Release\<close>

definition storeRelease :: "Lock \<times> world \<Rightarrow> error option \<times> Lock \<times> world" where
  "storeRelease lw =
     (let l = fst lw; w = snd lw in
      case driver_call w of
        (Some err, w1) \<Rightarrow>
          (typedError (Some err) ''cannot create transaction for lock acquisition'', l, w1)
      | (None, w1) \<Rightarrow>
     (case driver_call w1 of
        (Some err, w2) \<Rightarrow> (typedError (Some err) ''cannot run query to release lock'', l, w2)
      | (None, w2) \<Rightarrow>
     (case update_rvn (locks w2) (name l) (recordVersionNumber l) None of (tx, affected) \<Rightarrow>
     (case driver_call w2 of
        (Some err, w3) \<Rightarrow>
          (typedError (Some err) ''cannot confirm whether the lock has been released'', l, w3)
      | (None, w3) \<Rightarrow>
          if affected = 0
          then (Some ErrLockAlreadyReleased, l\<lparr>isReleased := True\<rparr>,
                call_cancel (heartbeatCancel l) w3)
          else
          (case (if \<not> keepOnRelease l
                 then (case driver_call w3 of
                         (Some err, w4) \<Rightarrow> (Some err, tx, w4)
                       | (None, w4) \<Rightarrow> (None, delete_free tx (name l), w4))
                 else (None, tx, w3)) of
             (Some err, tx', w4) \<Rightarrow>
               (typedError (Some err) ''cannot run query to delete lock'', l, w4)
           | (None, tx', w4) \<Rightarrow>
          (case driver_call w4 of
             (Some err, w5) \<Rightarrow> (typedError (Some err) ''cannot commit lock release'', l, w5)
           | (None, w5) \<Rightarrow>
               (None, l\<lparr>isReleased := True\<rparr>,
                call_cancel (heartbeatCancel l) (w5\<lparr>locks := tx'\<rparr>))))))))"

definition ReleaseContext :: "Lock \<Rightarrow> world \<Rightarrow> (error option \<times> Lock \<times> world) option" where
  "ReleaseContext l w =
     (if IsReleased l then Some (Some ErrLockAlreadyReleased, l, w)
      else retry storeRelease (l, w))"

definition Release :: "Lock \<Rightarrow> world \<Rightarrow> (error option \<times> Lock \<times> world) option" where
  "Release l w = ReleaseContext l w"

subsection \<open>Heartbeat\<close>

definition storeHeartbeat :: "Lock \<times> world \<Rightarrow> error option \<times> Lock \<times> world" where
  "storeHeartbeat lw =
     (let l = fst lw; w = snd lw in
      case driver_call w of
        (Some err, w1) \<Rightarrow>
          (typedError (Some err) ''cannot create transaction for lock acquisition'', l, w1)
      | (None, w1) \<Rightarrow>
     (case getNextRVN w1 of
        (rvn, Some err, w2) \<Rightarrow>
          (typedError (Some err) ''cannot run query to read record version number'', l, w2)
      | (rvn, None, w2) \<Rightarrow>
     (case driver_call w2 of
        (Some err, w3) \<Rightarrow>
          (typedError (Some err) ''cannot run query to update the heartbeat'', l, w3)
      | (None, w3) \<Rightarrow>
     (case update_rvn (locks w3) (name l) (recordVersionNumber l) (Some rvn) of
        (tx, affected) \<Rightarrow>
     (case driver_call w3 of
        (Some err, w4) \<Rightarrow>
          (typedError (Some err)
             ''cannot confirm whether the lock has been updated for the heartbeat'', l, w4)
      | (None, w4) \<Rightarrow>
          if affected = 0 then (Some ErrLockAlreadyReleased, l\<lparr>isReleased := True\<rparr>, w4)
          else
          (case driver_call w4 of
             (Some err, w5) \<Rightarrow> (typedError (Some err) ''cannot commit lock heartbeat'', l, w5)
           | (None, w5) \<Rightarrow> (None, l\<lparr>recordVersionNumber := rvn\<rparr>, w5\<lparr>locks := tx\<rparr>)))))))"

definition SendHeartbeat :: "Lock \<Rightarrow> world \<Rightarrow> (error option \<times> Lock \<times> world) option" where
  "SendHeartbeat l w =
     map_option (\<lambda>(err, l', w'). (errors_Wrapf err (''cannot send heartbeat: '' @ name l'), l', w'))
       (retry storeHeartbeat (l, w))"

subsection \<open>Operations on a handle, and clients running side by side\<close>

text \<open>
  The operations of the client that take an existing handle. \<open>run_op\<close> runs one of
  them; the three that go through \<open>retry\<close> may not return.
\<close>

datatype handle_op =
    OpStoreAcquire
  | OpTryAcquire ctx
  | OpStoreRelease
  | OpRelease
  | OpStoreHeartbeat
  | OpSendHeartbeat

fun run_op :: "handle_op \<Rightarrow> Lock \<Rightarrow> world \<Rightarrow> (error option \<times> Lock \<times> world) option" where
  "run_op OpStoreAcquire l w = Some (storeAcquire l w)"
| "run_op (OpTryAcquire c) l w = Some (tryAcquire c (l, w))"
| "run_op OpStoreRelease l w = Some (storeRelease (l, w))"
| "run_op OpRelease l w = Release l w"
| "run_op OpStoreHeartbeat l w = Some (storeHeartbeat (l, w))"
| "run_op OpSendHeartbeat l w = SendHeartbeat l w"

text \<open>A handle that goes through a list of operations, one after the other.\<close>

fun run_ops :: "handle_op list \<Rightarrow> Lock \<Rightarrow> world \<Rightarrow> (Lock \<times> world) option" where
  "run_ops [] l w = Some (l, w)"
| "run_ops (x # xs) l w =
     (case run_op x l w of
        None \<Rightarrow> None
      | Some (err, l', w') \<Rightarrow> run_ops xs l' w')"

text \<open>
  Clients side by side. The database runs the transactions at serializable isolation, so
  an execution of many clients is a sequence of whole transactions, in some order: a
  schedule names, step by step, the handle that moves and what it does: a fresh handle
  from \<open>newLock\<close>, one attempt of \<open>Acquire\<close> (\<open>tryAcquire\<close>), one heartbeat or one
  release. The waiting and retrying loops of the client are repetitions of such steps,
  with any steps of other handles in between. The trace lists the attempts that
  succeeded, in order: the lock name and the record version number on the handle returned.
\<close>

datatype sched_op =
    SNewLock string "LockOption list"
  | SAcquire
  | SHeartbeat
  | SRelease

type_synonym sched_state = "(nat \<Rightarrow> Lock) \<times> world \<times> (string \<times> int) list"

fun sched_step :: "Client \<Rightarrow> nat \<times> sched_op \<Rightarrow> sched_state \<Rightarrow> sched_state" where
  "sched_step cl (i, SNewLock n opts) (hs, w, tr) = (hs(i := newLock cl n opts), w, tr)"
| "sched_step cl (i, SAcquire) (hs, w, tr) =
     (case tryAcquire Background (hs i, w) of
        (None, l, w') \<Rightarrow> (hs(i := l), w', tr @ [(name l, recordVersionNumber l)])
      | (Some err, l, w') \<Rightarrow> (hs(i := l), w', tr))"
| "sched_step cl (i, SHeartbeat) (hs, w, tr) =
     (case storeHeartbeat (hs i, w) of (err, l, w') \<Rightarrow> (hs(i := l), w', tr))"
| "sched_step cl (i, SRelease) (hs, w, tr) =
     (case storeRelease (hs i, w) of (err, l, w') \<Rightarrow> (hs(i := l), w', tr))"

fun sched_run :: "Client \<Rightarrow> (nat \<times> sched_op) list \<Rightarrow> sched_state \<Rightarrow> sched_state" where
  "sched_run cl [] st = st"
| "sched_run cl (x # xs) st = sched_run cl xs (sched_step cl x st)"



text \<open>
  The invariant of the table and its sequence: every version number stored was drawn
  from the sequence, so it is below the next value.
\<close>

definition rvns_drawn :: "world \<Rightarrow> bool" where
  "rvns_drawn w =
     (\<forall>n r v. locks w n = Some r \<longrightarrow> record_version_number r = Some v \<longrightarrow> v < rvn_seq w)"

text \<open>A driver that fails in none of the next \<open>k\<close> calls.\<close>

definition no_faults :: "nat \<Rightarrow> world \<Rightarrow> bool" where
  "no_faults k w = (\<forall>i \<in> {0..<k}. driver w (calls w + i) = None)"

subsection \<open>Scenarios\<close>

text \<open>
  Worlds for the concrete runs: an empty table with a driver that never fails, and the
  lock \<open>job\<close> held by another client with version number 7.
\<close>

definition world0 :: world where
  "world0 =
     \<lparr>locks = Map.empty, rvn_seq = 1, driver = (\<lambda>k. None), calls = 0,
      cancelled = (\<lambda>i. False), ctx_count = 0, goroutines = [], clock = 0, sleeps = []\<rparr>"

definition held_by_other :: world where
  "held_by_other =
     world0\<lparr>locks := [''job'' \<mapsto> \<lparr>record_version_number = Some 7, row_data = []\<rparr>],
            rvn_seq := 8\<rparr>"

text \<open>The handle of the client that holds \<open>job\<close> there.\<close>

definition job_holder :: Lock where
  "job_holder = (newLock (default_Client PqDriver) ''job'' [])\<lparr>recordVersionNumber := 7\<rparr>"

text \<open>A world where every call into the driver ends in a network error.\<close>

definition network_down :: world where
  "network_down = world0\<lparr>driver := (\<lambda>k. Some NetOpError)\<rparr>"

definition serialization_failure :: driver_error where
  "serialization_failure = PqError ''40001''"

section \<open>Properties\<close>

subsection \<open>Errors and the retry loop\<close>

lemma typedError_Some_not_None [simp]: "typedError (Some d) v \<noteq> None"
  by (cases d) auto

lemma typedError_FailedPrecondition:
  "errors_Is FailedPrecondition (typedError (Some d) v) \<longleftrightarrow> d = PqError ''40001''"
  by (cases d) (auto simp: serializationErrorCode_def)

lemma retry_unfold:
  "f s = (err, s') \<Longrightarrow>
   retry f s = (if errors_Is FailedPrecondition err then retry f s' else Some (err, s'))"
  by (subst retry.simps) simp

text \<open>
  What \<open>retry\<close> returns is what the last call returned: a property \<open>P\<close> that every call
  keeps holds of the final state, and a property \<open>Q\<close> of every result that is not a
  serialization failure holds of the result.
\<close>

lemma retry_result:
  assumes step: "\<And>s err s'. f s = (err, s') \<Longrightarrow> P s \<Longrightarrow>
      P s' \<and> (\<not> errors_Is FailedPrecondition err \<longrightarrow> Q err s')"
    and ret: "retry f s = Some y" and init: "P s"
  shows "Q (fst y) (snd y)"
proof -
  have "f = f \<longrightarrow> P s \<longrightarrow> Q (fst y) (snd y)"
  proof (rule retry.raw_induct[where P = "\<lambda>g s y. g = f \<longrightarrow> P s \<longrightarrow> Q (fst y) (snd y)", OF _ ret])
    fix rt :: "('a \<Rightarrow> error option \<times> 'a) \<Rightarrow> 'a \<Rightarrow> (error option \<times> 'a) option" and g s y
    assume IH: "\<And>g s y. rt g s = Some y \<Longrightarrow> g = f \<longrightarrow> P s \<longrightarrow> Q (fst y) (snd y)"
      and eq: "(case g s of (err, s') \<Rightarrow>
        if errors_Is FailedPrecondition err then rt g s' else Some (err, s')) = Some y"
    show "g = f \<longrightarrow> P s \<longrightarrow> Q (fst y) (snd y)"
    proof (intro impI)
      assume g: "g = f" and Ps: "P s"
      obtain e s1 where fs: "f s = (e, s1)" by (cases "f s")
      have Ps1: "P s1" "\<not> errors_Is FailedPrecondition e \<longrightarrow> Q e s1"
        using step[OF fs Ps] by simp_all
      show "Q (fst y) (snd y)"
      proof (cases "errors_Is FailedPrecondition e")
        case True
        then have "rt f s1 = Some y" using eq g fs by simp
        from IH[OF this] Ps1 show ?thesis by simp
      next
        case False
        then have "y = (e, s1)" using eq g fs by simp
        then show ?thesis using Ps1 False by simp
      qed
    qed
  qed
  then show ?thesis using init by simp
qed

lemma retry_invariant:
  assumes step: "\<And>s err s'. f s = (err, s') \<Longrightarrow> P s \<Longrightarrow> P s'"
    and ret: "retry f s = Some y" and init: "P s"
  shows "P (snd y)"
  using retry_result[where P = P and Q = "\<lambda>e s. P s", OF _ ret init] step by blast

lemma retry_not_FailedPrecondition:
  assumes ret: "retry f s = Some y"
  shows "\<not> errors_Is FailedPrecondition (fst y)"
  using retry_result[where P = "\<lambda>s. True" and Q = "\<lambda>e s. \<not> errors_Is FailedPrecondition e", OF _ ret]
  by blast

text \<open>
  C8. Retry discipline. When a call of the wrapped operation ends in an error of kind
  \<open>FailedPrecondition\<close>, \<open>retry\<close> runs the operation again, from the state the call
  left; when it ends in anything else (no error, \<open>ErrNotAcquired\<close>, any other error),
  \<open>retry\<close> returns that result to the operation that called it. So nothing of kind
  \<open>FailedPrecondition\<close> is ever returned. \<open>ErrNotAcquired\<close> is not of that kind, and
  \<open>typedError\<close> gives that kind to the PostgreSQL error with SQLSTATE 40001 and to no
  other driver error.
\<close>

theorem retry_discipline:
  "(f s = (err, s') \<and> errors_Is FailedPrecondition err \<longrightarrow> retry f s = retry f s') \<and>
   (f s = (err, s') \<and> \<not> errors_Is FailedPrecondition err \<longrightarrow> retry f s = Some (err, s')) \<and>
   (retry f s = Some (err1, s1) \<longrightarrow> \<not> errors_Is FailedPrecondition err1) \<and>
   \<not> errors_Is FailedPrecondition (Some ErrNotAcquired) \<and>
   (errors_Is FailedPrecondition (typedError derr v) \<longleftrightarrow> derr = Some (PqError ''40001''))"
proof (intro conjI impI)
  show "retry f s = retry f s'" if "f s = (err, s') \<and> errors_Is FailedPrecondition err"
    using that retry_unfold[of f s err s'] by simp
  show "retry f s = Some (err, s')" if "f s = (err, s') \<and> \<not> errors_Is FailedPrecondition err"
    using that retry_unfold[of f s err s'] by simp
  show "\<not> errors_Is FailedPrecondition err1" if "retry f s = Some (err1, s1)"
    using retry_not_FailedPrecondition[OF that] by simp
  show "\<not> errors_Is FailedPrecondition (Some ErrNotAcquired)" by simp
  show "errors_Is FailedPrecondition (typedError derr v) \<longleftrightarrow> derr = Some (PqError ''40001'')"
    using typedError_FailedPrecondition by (cases derr) auto
qed

text \<open>
  A run: the lock is held by another client and the first call into the driver ends in a
  serialization failure. The first attempt is reissued, the second ends in
  \<open>ErrNotAcquired\<close>, which \<open>retry\<close> returns.
\<close>

lemma tryAcquire_serialization_failure:
  "tryAcquire Background (newLock (default_Client PqDriver) ''job'' [],
       held_by_other\<lparr>driver := (\<lambda>k. if k = 0 then Some serialization_failure else None)\<rparr>)
   = (Some (E FailedPrecondition serialization_failure
              ''cannot create transaction for lock acquisition''),
      newLock (default_Client PqDriver) ''job'' [],
      held_by_other\<lparr>driver := (\<lambda>k. if k = 0 then Some serialization_failure else None),
                     calls := 1\<rparr>)"
  by (simp add: tryAcquire_def storeAcquire_def driver_call_def held_by_other_def world0_def
      serialization_failure_def serializationErrorCode_def)

lemma tryAcquire_second_attempt:
  "fst (tryAcquire Background (newLock (default_Client PqDriver) ''job'' [],
       held_by_other\<lparr>driver := (\<lambda>k. if k = 0 then Some serialization_failure else None),
                      calls := 1\<rparr>))
   = Some ErrNotAcquired"
  by code_simp

theorem retry_discipline_witness:
  "map_option fst (retry (tryAcquire Background) (newLock (default_Client PqDriver) ''job'' [],
       held_by_other\<lparr>driver := (\<lambda>k. if k = 0 then Some serialization_failure else None)\<rparr>))
   = Some (Some ErrNotAcquired)"
proof -
  define f :: "Lock \<times> world \<Rightarrow> error option \<times> Lock \<times> world" where
    "f = tryAcquire Background"
  define l where "l = newLock (default_Client PqDriver) ''job'' []"
  define w where
    "w = held_by_other\<lparr>driver := (\<lambda>k. if k = 0 then Some serialization_failure else None)\<rparr>"
  define w1 where "w1 = w\<lparr>calls := 1\<rparr>"
  define e1 where
    "e1 = Some (E FailedPrecondition serialization_failure
                  ''cannot create transaction for lock acquisition'')"
  have a1: "f (l, w) = (e1, l, w1)"
    unfolding f_def l_def w_def w1_def e1_def by (rule tryAcquire_serialization_failure)
  have fp: "errors_Is FailedPrecondition e1" unfolding e1_def by simp
  have "fst (f (l, w1)) = Some ErrNotAcquired"
    unfolding f_def l_def w_def w1_def by (rule tryAcquire_second_attempt)
  then obtain l2 w2 where a2: "f (l, w1) = (Some ErrNotAcquired, l2, w2)"
    by (cases "f (l, w1)") simp
  have nfp: "\<not> errors_Is FailedPrecondition (Some ErrNotAcquired)" by simp
  have "retry f (l, w) = retry f (l, w1)"
    by (rule retry_discipline[THEN conjunct1, THEN mp]) (rule conjI[OF a1 fp])
  also have "\<dots> = Some (Some ErrNotAcquired, l2, w2)"
    by (rule retry_discipline[THEN conjunct2, THEN conjunct1, THEN mp]) (rule conjI[OF a2 nfp])
  finally show ?thesis unfolding f_def l_def w_def by simp
qed

subsection \<open>Client construction\<close>

lemma New_without_PostgreSQL:
  "New None opts = Inl ErrNotPostgreSQLDriver"
  "New (Some OtherDriver) opts = Inl ErrNotPostgreSQLDriver"
  by (simp_all add: New_def)

lemma New_defaults:
  "New (Some PqDriver) [] =
     Inr \<lparr>db = PqDriver, tableName = ''locks'', client_leaseDuration = 20000000000,
          heartbeatFrequency = 5000000000, log = DiscardLogger\<rparr>"
  by (simp add: New_def isDurationTooSmall_def default_Client_def word_sless_alt
      DefaultLeaseDuration_def Second_def DefaultHeartbeatFrequency_def DefaultTableName_def)

text \<open>
  Below \<open>2\<^sup>6\<^sup>2\<close> nanoseconds (some 146 years) twice the heartbeat frequency does not
  overflow, and the check is the comparison of the two durations as integers.
\<close>

lemma isDurationTooSmall_in_range:
  assumes "sint (heartbeatFrequency c) < 2 ^ 62"
  shows "isDurationTooSmall c \<longleftrightarrow>
    0 < sint (heartbeatFrequency c) \<and>
    sint (client_leaseDuration c) < 2 * sint (heartbeatFrequency c)"
proof (cases "0 < sint (heartbeatFrequency c)")
  case True
  have "sint (2 * heartbeatFrequency c) = 2 * sint (heartbeatFrequency c)"
    using True assms
    by (simp add: sint_word_ariths signed_take_bit_int_eq_self)
  then show ?thesis using True
    by (simp add: isDurationTooSmall_def word_sless_alt)
next
  case False
  then show ?thesis by (simp add: isDurationTooSmall_def word_sless_alt)
qed

text \<open>
  C4. Client construction rejects a configuration whose lease is below twice a positive
  heartbeat frequency. The code computes \<open>2*c.heartbeatFrequency\<close> in 64 bits: with a
  heartbeat frequency of \<open>2\<^sup>6\<^sup>2\<close> nanoseconds the product wraps to the most negative
  duration, no lease is below it, and \<open>New\<close> returns a client whose default lease of 20
  seconds is far below twice its heartbeat frequency.
\<close>

theorem New_accepts_overflowing_heartbeat:
  "New (Some PqDriver) [WithHeartbeatFrequency (2 ^ 62)] =
     Inr ((default_Client PqDriver)\<lparr>heartbeatFrequency := 2 ^ 62\<rparr>) \<and>
   0 < sint ((2 :: duration) ^ 62) \<and>
   sint (client_leaseDuration (default_Client PqDriver)) < 2 * sint ((2 :: duration) ^ 62)"
  by (simp add: New_def isDurationTooSmall_def default_Client_def word_sless_alt
      DefaultLeaseDuration_def Second_def DefaultHeartbeatFrequency_def)

subsection \<open>The scenarios and the driver\<close>

lemma no_faults_5:
  assumes "no_faults 5 w"
  shows "driver w (calls w) = None" "driver w (Suc (calls w)) = None"
    "driver w (Suc (Suc (calls w))) = None" "driver w (Suc (Suc (Suc (calls w)))) = None"
    "driver w (Suc (Suc (Suc (Suc (calls w))))) = None"
proof -
  have *: "\<And>i. i < 5 \<Longrightarrow> driver w (calls w + i) = None"
    using assms by (simp add: no_faults_def)
  show "driver w (calls w) = None" using *[of 0] by simp
  show "driver w (Suc (calls w)) = None" using *[of 1] by simp
  show "driver w (Suc (Suc (calls w))) = None" using *[of 2] by simp
  show "driver w (Suc (Suc (Suc (calls w)))) = None"
    using *[of 3] by (simp add: eval_nat_numeral)
  show "driver w (Suc (Suc (Suc (Suc (calls w))))) = None"
    using *[of 4] by (simp add: eval_nat_numeral)
qed

lemma no_faults_held_by_other: "no_faults k held_by_other"
  by (simp add: no_faults_def held_by_other_def world0_def)

lemma rvns_drawn_held_by_other: "rvns_drawn held_by_other"
  by (auto simp: rvns_drawn_def held_by_other_def world0_def split: if_splits)

lemma rvns_drawnD:
  "rvns_drawn w \<Longrightarrow> locks w n = Some r \<Longrightarrow> record_version_number r = Some v \<Longrightarrow> v < rvn_seq w"
  by (auto simp: rvns_drawn_def)

lemma job_holder_fields:
  "name job_holder = ''job''" "recordVersionNumber job_holder = 7"
  "keepOnRelease job_holder = False" "heartbeatCancel job_holder = None"
  "isReleased job_holder = False"
  by (simp_all add: job_holder_def newLock_def)

lemma held_by_other_job:
  "locks held_by_other ''job'' = Some \<lparr>record_version_number = Some 7, row_data = []\<rparr>"
  by (simp add: held_by_other_def)

lemma typedError_not_client_error [simp]:
  "typedError d v \<noteq> Some ErrLockAlreadyReleased"
  "typedError d v \<noteq> Some ErrNotAcquired"
  by (cases d; cases "the d"; simp)+

subsection \<open>One attempt to acquire\<close>

lemma storeAcquire_absent:
  assumes nf: "no_faults 5 w" and absent: "locks w (name l) = None"
  shows "storeAcquire l w =
    (None, l\<lparr>recordVersionNumber := rvn_seq w\<rparr>,
     w\<lparr>calls := calls w + 5, rvn_seq := rvn_seq w + 1,
       locks := (locks w)(name l \<mapsto> \<lparr>record_version_number = Some (rvn_seq w), row_data = data l\<rparr>)\<rparr>)"
  using no_faults_5[OF nf] absent
  by (simp add: storeAcquire_def driver_call_def getNextRVN_def scan_rvn_data_def Let_def
      upsert_def eval_nat_numeral)

lemma storeAcquire_claimable:
  assumes nf: "no_faults 5 w" and row: "locks w (name l) = Some r"
    and ok: "record_version_number r = None \<or> record_version_number r = Some (recordVersionNumber l)"
  shows "storeAcquire l w =
    (None, l\<lparr>recordVersionNumber := rvn_seq w, data := (if replaceData l then data l else row_data r)\<rparr>,
     w\<lparr>calls := calls w + 5, rvn_seq := rvn_seq w + 1,
       locks := (locks w)(name l \<mapsto> \<lparr>record_version_number = Some (rvn_seq w),
                  row_data = (if replaceData l then data l else row_data r)\<rparr>)\<rparr>)"
  using no_faults_5[OF nf] row ok
  by (auto simp add: storeAcquire_def driver_call_def getNextRVN_def scan_rvn_data_def Let_def
      upsert_def eval_nat_numeral)

lemma storeAcquire_held:
  assumes nf: "no_faults 5 w" and row: "locks w (name l) = Some r"
    and held: "record_version_number r = Some v" "v \<noteq> recordVersionNumber l"
    and fresh: "v \<noteq> rvn_seq w"
  shows "storeAcquire l w =
    (Some ErrNotAcquired, l\<lparr>recordVersionNumber := v\<rparr>,
     w\<lparr>calls := calls w + 4, rvn_seq := rvn_seq w + 1\<rparr>)"
  using no_faults_5[OF nf] row held fresh
  by (auto simp add: storeAcquire_def driver_call_def getNextRVN_def scan_rvn_data_def Let_def
      upsert_def eval_nat_numeral)

text \<open>
  C2. One attempt of \<open>storeAcquire\<close>, when the driver does not fail and the version
  numbers in the table were drawn from the sequence. The attempt succeeds exactly when
  the row is absent, free (its version number is NULL) or holds the version number the
  handle observed last. On success the handle has the version number just drawn and the
  data of the row, which is the handle's payload when the row was absent or
  \<open>replaceData\<close> is set and the stored payload otherwise; the row holds both. When the
  row is held with another version number, the attempt fails with \<open>ErrNotAcquired\<close>,
  the handle takes the version number observed and the table is as it was.
\<close>

theorem storeAcquire_attempt:
  assumes nf: "no_faults 5 w" and inv: "rvns_drawn w"
  shows "(fst (storeAcquire l w) = None \<longleftrightarrow>
           (\<forall>r. locks w (name l) = Some r \<longrightarrow>
              record_version_number r = None \<or>
              record_version_number r = Some (recordVersionNumber l))) \<and>
         (locks w (name l) = None \<longrightarrow>
           storeAcquire l w =
             (None, l\<lparr>recordVersionNumber := rvn_seq w\<rparr>,
              w\<lparr>calls := calls w + 5, rvn_seq := rvn_seq w + 1,
                locks := (locks w)(name l \<mapsto>
                  \<lparr>record_version_number = Some (rvn_seq w), row_data = data l\<rparr>)\<rparr>)) \<and>
         (\<forall>r. locks w (name l) = Some r \<and>
            (record_version_number r = None \<or>
             record_version_number r = Some (recordVersionNumber l)) \<longrightarrow>
           storeAcquire l w =
             (None,
              l\<lparr>recordVersionNumber := rvn_seq w,
                data := (if replaceData l then data l else row_data r)\<rparr>,
              w\<lparr>calls := calls w + 5, rvn_seq := rvn_seq w + 1,
                locks := (locks w)(name l \<mapsto>
                  \<lparr>record_version_number = Some (rvn_seq w),
                   row_data = (if replaceData l then data l else row_data r)\<rparr>)\<rparr>)) \<and>
         (\<forall>r v. locks w (name l) = Some r \<and> record_version_number r = Some v \<and>
            v \<noteq> recordVersionNumber l \<longrightarrow>
           storeAcquire l w =
             (Some ErrNotAcquired, l\<lparr>recordVersionNumber := v\<rparr>,
              w\<lparr>calls := calls w + 4, rvn_seq := rvn_seq w + 1\<rparr>))"
proof (intro conjI allI impI)
  show "storeAcquire l w =
      (None, l\<lparr>recordVersionNumber := rvn_seq w\<rparr>,
       w\<lparr>calls := calls w + 5, rvn_seq := rvn_seq w + 1,
         locks := (locks w)(name l \<mapsto>
           \<lparr>record_version_number = Some (rvn_seq w), row_data = data l\<rparr>)\<rparr>)"
    if "locks w (name l) = None"
    using storeAcquire_absent[OF nf that] .
next
  fix r
  assume "locks w (name l) = Some r \<and>
    (record_version_number r = None \<or> record_version_number r = Some (recordVersionNumber l))"
  then show "storeAcquire l w =
      (None,
       l\<lparr>recordVersionNumber := rvn_seq w,
         data := (if replaceData l then data l else row_data r)\<rparr>,
       w\<lparr>calls := calls w + 5, rvn_seq := rvn_seq w + 1,
         locks := (locks w)(name l \<mapsto>
           \<lparr>record_version_number = Some (rvn_seq w),
            row_data = (if replaceData l then data l else row_data r)\<rparr>)\<rparr>)"
    using storeAcquire_claimable[OF nf] by blast
next
  fix r v
  assume h: "locks w (name l) = Some r \<and> record_version_number r = Some v \<and>
    v \<noteq> recordVersionNumber l"
  then have "v \<noteq> rvn_seq w" using rvns_drawnD[OF inv, of "name l" r v] by simp
  then show "storeAcquire l w =
      (Some ErrNotAcquired, l\<lparr>recordVersionNumber := v\<rparr>,
       w\<lparr>calls := calls w + 4, rvn_seq := rvn_seq w + 1\<rparr>)"
    using storeAcquire_held[OF nf, of l r v] h by simp
next
  show "fst (storeAcquire l w) = None \<longleftrightarrow>
      (\<forall>r. locks w (name l) = Some r \<longrightarrow>
         record_version_number r = None \<or>
         record_version_number r = Some (recordVersionNumber l))"
  proof (cases "locks w (name l)")
    case None
    then show ?thesis using storeAcquire_absent[OF nf None] by simp
  next
    case (Some r)
    show ?thesis
    proof (cases "record_version_number r = None \<or>
        record_version_number r = Some (recordVersionNumber l)")
      case True
      then show ?thesis using storeAcquire_claimable[OF nf Some True] Some by simp
    next
      case False
      then obtain v where v: "record_version_number r = Some v" "v \<noteq> recordVersionNumber l"
        by auto
      have "v \<noteq> rvn_seq w" using rvns_drawnD[OF inv Some v(1)] by simp
      then show ?thesis using storeAcquire_held[OF nf Some v] Some False by simp
    qed
  qed
qed

theorem storeAcquire_attempt_witness:
  "no_faults 5 held_by_other \<and> rvns_drawn held_by_other \<and>
   storeAcquire (newLock (default_Client PqDriver) ''job'' []) held_by_other =
     (Some ErrNotAcquired,
      (newLock (default_Client PqDriver) ''job'' [])\<lparr>recordVersionNumber := 7\<rparr>,
      held_by_other\<lparr>calls := 4, rvn_seq := 9\<rparr>) \<and>
   storeAcquire job_holder held_by_other =
     (None, job_holder\<lparr>recordVersionNumber := 8\<rparr>,
      held_by_other\<lparr>calls := 5, rvn_seq := 9,
        locks := [''job'' \<mapsto> \<lparr>record_version_number = Some 8, row_data = []\<rparr>]\<rparr>)"
proof -
  note th = storeAcquire_attempt[OF no_faults_held_by_other rvns_drawn_held_by_other]
  have 1: "storeAcquire (newLock (default_Client PqDriver) ''job'' []) held_by_other =
     (Some ErrNotAcquired,
      (newLock (default_Client PqDriver) ''job'' [])\<lparr>recordVersionNumber := 7\<rparr>,
      held_by_other\<lparr>calls := 4, rvn_seq := 9\<rparr>)"
    using th[of "newLock (default_Client PqDriver) ''job'' []", THEN conjunct2, THEN conjunct2,
        THEN conjunct2, rule_format, of "\<lparr>record_version_number = Some 7, row_data = []\<rparr>" 7]
    by (simp add: newLock_def held_by_other_job) (simp add: held_by_other_def world0_def)
  have 2: "storeAcquire job_holder held_by_other =
     (None, job_holder\<lparr>recordVersionNumber := 8\<rparr>,
      held_by_other\<lparr>calls := 5, rvn_seq := 9,
        locks := [''job'' \<mapsto> \<lparr>record_version_number = Some 8, row_data = []\<rparr>]\<rparr>)"
    using th[of job_holder, THEN conjunct2, THEN conjunct2, THEN conjunct1, rule_format,
        of "\<lparr>record_version_number = Some 7, row_data = []\<rparr>"]
    by (simp add: job_holder_fields held_by_other_job)
       (simp add: held_by_other_def world0_def job_holder_def newLock_def)
  show ?thesis
    using no_faults_held_by_other rvns_drawn_held_by_other 1 2 by simp
qed

subsection \<open>Release\<close>

lemma storeRelease_cases:
  assumes "storeRelease (l, w) = (err, l', w')"
  shows "(l' = l\<lparr>isReleased := True\<rparr> \<and> (err = None \<or> err = Some ErrLockAlreadyReleased)) \<or>
         (l' = l \<and> (\<exists>d v. err = typedError (Some d) v))"
  using assms
  by (auto simp: storeRelease_def driver_call_def Let_def split: option.splits prod.splits if_splits)

lemma storeRelease_sets_isReleased:
  assumes "storeRelease (l, w) = (err, l', w')" "err = None \<or> err = Some ErrLockAlreadyReleased"
  shows "isReleased l'"
  using storeRelease_cases[OF assms(1)] assms(2) by auto

lemma Release_sets_isReleased:
  assumes "Release l w = Some (err, l', w')" "err = None \<or> err = Some ErrLockAlreadyReleased"
  shows "isReleased l'"
proof (cases "isReleased l")
  case True
  then show ?thesis using assms by (simp add: Release_def ReleaseContext_def IsReleased_def)
next
  case False
  then have ret: "retry storeRelease (l, w) = Some (err, l', w')"
    using assms by (simp add: Release_def ReleaseContext_def IsReleased_def)
  have "(fst (err, l', w') = None \<or> fst (err, l', w') = Some ErrLockAlreadyReleased) \<longrightarrow> isReleased (fst (snd (err, l', w')))"
    by (rule retry_result[where P = "\<lambda>s. True" and Q = "\<lambda>e s. (e = None \<or> e = Some ErrLockAlreadyReleased) \<longrightarrow> isReleased (fst s)", OF _ ret])
       (auto dest: storeRelease_sets_isReleased)
  then show ?thesis using assms(2) by simp
qed

lemma storeRelease_lost:
  assumes nf: "no_faults 5 w"
    and lost: "\<forall>r. locks w (name l) = Some r \<longrightarrow> record_version_number r \<noteq> Some (recordVersionNumber l)"
  shows "storeRelease (l, w) =
    (Some ErrLockAlreadyReleased, l\<lparr>isReleased := True\<rparr>,
     call_cancel (heartbeatCancel l) (w\<lparr>calls := calls w + 3\<rparr>))"
  using no_faults_5[OF nf] lost
  by (auto simp: storeRelease_def driver_call_def Let_def update_rvn_def eval_nat_numeral split: option.splits)

lemma storeRelease_held:
  assumes nf: "no_faults 5 w"
    and held: "locks w (name l) = Some r" "record_version_number r = Some (recordVersionNumber l)"
  shows "storeRelease (l, w) =
    (None, l\<lparr>isReleased := True\<rparr>,
     call_cancel (heartbeatCancel l)
       (w\<lparr>calls := calls w + (if keepOnRelease l then 4 else 5),
          locks := (if keepOnRelease l
                    then (locks w)(name l \<mapsto> r\<lparr>record_version_number := None\<rparr>)
                    else (locks w)(name l := None))\<rparr>))"
  using no_faults_5[OF nf] held
  by (auto simp: storeRelease_def driver_call_def Let_def update_rvn_def delete_free_def eval_nat_numeral split: option.splits)

lemma Release_job_holder:
  "Release job_holder held_by_other =
     Some (None, job_holder\<lparr>isReleased := True\<rparr>, held_by_other\<lparr>calls := 5, locks := Map.empty\<rparr>)"
proof -
  have 1: "storeRelease (job_holder, held_by_other) =
     (None, job_holder\<lparr>isReleased := True\<rparr>,
      held_by_other\<lparr>calls := 5, locks := Map.empty\<rparr>)"
    using storeRelease_held[OF no_faults_held_by_other, of job_holder
        "\<lparr>record_version_number = Some 7, row_data = []\<rparr>"]
    by (simp add: job_holder_fields held_by_other_job) (simp add: held_by_other_def world0_def)
  show ?thesis
    by (simp add: Release_def ReleaseContext_def IsReleased_def job_holder_fields
        retry_unfold[where f = storeRelease, OF 1])
qed

text \<open>
  C5. Release is idempotent on the handle. On a handle whose \<open>isReleased\<close> flag is
  set, \<open>Release\<close> returns \<open>ErrLockAlreadyReleased\<close> and leaves the handle and the
  world, the database and the count of calls into the driver included, as they were. A
  \<open>Release\<close> that returned without error or with \<open>ErrLockAlreadyReleased\<close> has set
  the flag, so every later \<open>Release\<close> of the handle, in any world, is such a call.
\<close>

theorem Release_idempotent:
  "(isReleased l \<longrightarrow> Release l w = Some (Some ErrLockAlreadyReleased, l, w)) \<and>
   (Release l w = Some (err, l', w') \<and> (err = None \<or> err = Some ErrLockAlreadyReleased) \<longrightarrow>
      (\<forall>w''. Release l' w'' = Some (Some ErrLockAlreadyReleased, l', w'')))"
proof (intro conjI impI allI)
  show "Release l w = Some (Some ErrLockAlreadyReleased, l, w)" if "isReleased l"
    using that by (simp add: Release_def ReleaseContext_def IsReleased_def)
  show "Release l' w'' = Some (Some ErrLockAlreadyReleased, l', w'')"
    if "Release l w = Some (err, l', w') \<and> (err = None \<or> err = Some ErrLockAlreadyReleased)" for w''
    using Release_sets_isReleased[of l w err l' w'] that
    by (simp add: Release_def ReleaseContext_def IsReleased_def)
qed


theorem Release_idempotent_witness:
  "Release job_holder held_by_other =
     Some (None, job_holder\<lparr>isReleased := True\<rparr>, held_by_other\<lparr>calls := 5, locks := Map.empty\<rparr>) \<and>
   Release (job_holder\<lparr>isReleased := True\<rparr>) (held_by_other\<lparr>calls := 5, locks := Map.empty\<rparr>) =
     Some (Some ErrLockAlreadyReleased, job_holder\<lparr>isReleased := True\<rparr>,
           held_by_other\<lparr>calls := 5, locks := Map.empty\<rparr>)"
  using Release_idempotent[of job_holder held_by_other None "job_holder\<lparr>isReleased := True\<rparr>"
      "held_by_other\<lparr>calls := 5, locks := Map.empty\<rparr>", THEN conjunct2]
    Release_job_holder
  by simp

text \<open>
  C6. \<open>storeRelease\<close> when the driver does not fail. If no row of that name holds the
  handle's version number, the update affects no row: the handle is marked released,
  its cancel function is called, the table is unchanged and \<open>ErrLockAlreadyReleased\<close>
  is returned. Otherwise the row is deleted, or with \<open>keepOnRelease\<close> stays with a
  NULL version number; the handle is marked released, its cancel function is called and
  no error is returned.
\<close>

theorem storeRelease_semantics:
  assumes "no_faults 5 w"
  shows "((\<forall>r. locks w (name l) = Some r \<longrightarrow>
            record_version_number r \<noteq> Some (recordVersionNumber l)) \<longrightarrow>
          storeRelease (l, w) =
            (Some ErrLockAlreadyReleased, l\<lparr>isReleased := True\<rparr>,
             call_cancel (heartbeatCancel l) (w\<lparr>calls := calls w + 3\<rparr>))) \<and>
         (\<forall>r. locks w (name l) = Some r \<and>
            record_version_number r = Some (recordVersionNumber l) \<longrightarrow>
          storeRelease (l, w) =
            (None, l\<lparr>isReleased := True\<rparr>,
             call_cancel (heartbeatCancel l)
               (w\<lparr>calls := calls w + (if keepOnRelease l then 4 else 5),
                  locks := (if keepOnRelease l
                            then (locks w)(name l \<mapsto> r\<lparr>record_version_number := None\<rparr>)
                            else (locks w)(name l := None))\<rparr>)))"
  using storeRelease_lost[OF assms] storeRelease_held[OF assms] by blast

theorem storeRelease_semantics_witness:
  "no_faults 5 held_by_other \<and>
   storeRelease (job_holder, held_by_other) =
     (None, job_holder\<lparr>isReleased := True\<rparr>,
      held_by_other\<lparr>calls := 5, locks := Map.empty\<rparr>) \<and>
   storeRelease (job_holder\<lparr>recordVersionNumber := 3\<rparr>, held_by_other) =
     (Some ErrLockAlreadyReleased, job_holder\<lparr>recordVersionNumber := 3, isReleased := True\<rparr>,
      held_by_other\<lparr>calls := 3\<rparr>)"
proof -
  have nf: "no_faults 5 held_by_other" by (rule no_faults_held_by_other)
  have 1: "storeRelease (job_holder, held_by_other) =
     (None, job_holder\<lparr>isReleased := True\<rparr>,
      held_by_other\<lparr>calls := 5, locks := Map.empty\<rparr>)"
    using storeRelease_semantics[OF nf, of job_holder, THEN conjunct2, rule_format,
        of "\<lparr>record_version_number = Some 7, row_data = []\<rparr>"]
    by (simp add: job_holder_fields held_by_other_job) (simp add: held_by_other_def world0_def)
  have 2: "storeRelease (job_holder\<lparr>recordVersionNumber := 3\<rparr>, held_by_other) =
     (Some ErrLockAlreadyReleased, job_holder\<lparr>recordVersionNumber := 3, isReleased := True\<rparr>,
      held_by_other\<lparr>calls := 3\<rparr>)"
    using storeRelease_semantics[OF nf, of "job_holder\<lparr>recordVersionNumber := 3\<rparr>", THEN conjunct1]
    by (simp add: job_holder_fields held_by_other_job) (simp add: held_by_other_def world0_def)
  show ?thesis using nf 1 2 by simp
qed


subsection \<open>Heartbeat\<close>

lemma storeHeartbeat_held:
  assumes nf: "no_faults 5 w"
    and held: "locks w (name l) = Some r" "record_version_number r = Some (recordVersionNumber l)"
  shows "storeHeartbeat (l, w) =
    (None, l\<lparr>recordVersionNumber := rvn_seq w\<rparr>,
       w\<lparr>calls := calls w + 5, rvn_seq := rvn_seq w + 1,
              locks := (locks w)(name l \<mapsto> r\<lparr>record_version_number := Some (rvn_seq w)\<rparr>)\<rparr>)"
  using no_faults_5[OF nf] held
  by (auto simp: storeHeartbeat_def driver_call_def getNextRVN_def Let_def update_rvn_def eval_nat_numeral split: option.splits)

lemma storeHeartbeat_lost:
  assumes nf: "no_faults 5 w"
    and lost: "\<forall>r. locks w (name l) = Some r \<longrightarrow> record_version_number r \<noteq> Some (recordVersionNumber l)"
  shows "storeHeartbeat (l, w) =
    (Some ErrLockAlreadyReleased, l\<lparr>isReleased := True\<rparr>,
     w\<lparr>calls := calls w + 4, rvn_seq := rvn_seq w + 1\<rparr>)"
  using no_faults_5[OF nf] lost
  by (auto simp: storeHeartbeat_def driver_call_def getNextRVN_def Let_def update_rvn_def eval_nat_numeral split: option.splits)

lemma storeHeartbeat_job_holder:
  "storeHeartbeat (job_holder, held_by_other) =
     (None, job_holder\<lparr>recordVersionNumber := 8\<rparr>,
      held_by_other\<lparr>calls := 5, rvn_seq := 9,
        locks := [''job'' \<mapsto> \<lparr>record_version_number = Some 8, row_data = []\<rparr>]\<rparr>)"
  using storeHeartbeat_held[OF no_faults_held_by_other, of job_holder
        "\<lparr>record_version_number = Some 7, row_data = []\<rparr>"]
  by (simp add: job_holder_fields held_by_other_job) (simp add: held_by_other_def world0_def)

text \<open>
  C7. A successful heartbeat changes the version number of the row and of the handle,
  both to the value just drawn, and nothing else: the name and the data of the row, the
  other rows and the other fields of the handle are as before (in the world, the
  sequence has moved on and five calls went to the driver).
\<close>

theorem storeHeartbeat_frame:
  assumes "storeHeartbeat (l, w) = (None, l', w')"
  shows "\<exists>r. locks w (name l) = Some r \<and>
      record_version_number r = Some (recordVersionNumber l) \<and>
      l' = l\<lparr>recordVersionNumber := rvn_seq w\<rparr> \<and>
      w' = w\<lparr>calls := calls w + 5, rvn_seq := rvn_seq w + 1,
             locks := (locks w)(name l \<mapsto> r\<lparr>record_version_number := Some (rvn_seq w)\<rparr>)\<rparr>"
  using assms
  by (auto simp add: storeHeartbeat_def driver_call_def getNextRVN_def Let_def update_rvn_def
      eval_nat_numeral split: option.splits if_splits prod.splits)

theorem storeHeartbeat_frame_witness:
  "storeHeartbeat (job_holder, held_by_other) =
     (None, job_holder\<lparr>recordVersionNumber := 8\<rparr>,
      held_by_other\<lparr>calls := 5, rvn_seq := 9,
        locks := [''job'' \<mapsto> \<lparr>record_version_number = Some 8, row_data = []\<rparr>]\<rparr>) \<and>
   (\<exists>r. locks held_by_other (name job_holder) = Some r \<and>
      record_version_number r = Some (recordVersionNumber job_holder) \<and>
      job_holder\<lparr>recordVersionNumber := 8\<rparr> = job_holder\<lparr>recordVersionNumber := rvn_seq held_by_other\<rparr> \<and>
      held_by_other\<lparr>calls := 5, rvn_seq := 9,
        locks := [''job'' \<mapsto> \<lparr>record_version_number = Some 8, row_data = []\<rparr>]\<rparr> =
      held_by_other\<lparr>calls := calls held_by_other + 5, rvn_seq := rvn_seq held_by_other + 1,
             locks := (locks held_by_other)(name job_holder \<mapsto>
                 r\<lparr>record_version_number := Some (rvn_seq held_by_other)\<rparr>)\<rparr>)"
  using storeHeartbeat_frame[OF storeHeartbeat_job_holder] storeHeartbeat_job_holder by blast


subsection \<open>The loop of Acquire\<close>

lemma storeAcquire_frame:
  assumes "storeAcquire l w = (err, l', w')"
  shows "name l' = name l \<and> leaseDuration l' = leaseDuration l \<and>
         failIfLocked l' = failIfLocked l \<and> keepOnRelease l' = keepOnRelease l \<and>
         replaceData l' = replaceData l \<and> isReleased l' = isReleased l \<and>
         heartbeatCancel l' = heartbeatCancel l"
  using assms
  by (auto simp: storeAcquire_def driver_call_def getNextRVN_def scan_rvn_data_def Let_def
      split: option.splits prod.splits if_splits sum.splits)

lemma storeAcquire_NotAcquired:
  assumes "storeAcquire l w = (Some ErrNotAcquired, l', w')"
  shows "\<exists>r. locks w (name l) = Some r \<and>
           record_version_number r = Some (recordVersionNumber l') \<and>
           l' = l\<lparr>recordVersionNumber := recordVersionNumber l'\<rparr> \<and> locks w' = locks w"
  using assms
  by (auto simp: storeAcquire_def driver_call_def getNextRVN_def scan_rvn_data_def Let_def upsert_def
      split: option.splits prod.splits if_splits sum.splits)

lemma tryAcquire_frame:
  assumes "tryAcquire c (l, w) = (err, l', w')"
  shows "name l' = name l \<and> leaseDuration l' = leaseDuration l \<and>
         failIfLocked l' = failIfLocked l \<and> keepOnRelease l' = keepOnRelease l \<and>
         replaceData l' = replaceData l \<and> isReleased l' = isReleased l"
proof -
  obtain e1 l1 w1 where sa: "storeAcquire l w = (e1, l1, w1)" by (cases "storeAcquire l w")
  from storeAcquire_frame[OF sa] assms sa show ?thesis
    by (cases e1) (auto simp: tryAcquire_def)
qed

lemma tryAcquire_NotAcquired:
  assumes "tryAcquire c (l, w) = (Some ErrNotAcquired, l', w')"
  shows "\<exists>r. locks w' (name l') = Some r \<and>
           record_version_number r = Some (recordVersionNumber l')"
proof -
  obtain e1 l1 w1 where sa: "storeAcquire l w = (e1, l1, w1)" by (cases "storeAcquire l w")
  with assms have "e1 = Some ErrNotAcquired" "l1 = l'" "w1 = w'"
    by (cases e1; simp add: tryAcquire_def)+
  with storeAcquire_NotAcquired[of l w l' w'] storeAcquire_frame[of l w e1 l1 w1] sa
  show ?thesis by auto
qed


lemma retry_tryAcquire_frame:
  assumes "retry (tryAcquire c) (l, w) = Some (err, l', w')"
  shows "name l' = name l \<and> leaseDuration l' = leaseDuration l \<and>
         failIfLocked l' = failIfLocked l \<and> keepOnRelease l' = keepOnRelease l \<and>
         replaceData l' = replaceData l \<and> isReleased l' = isReleased l"
proof -
  let ?P = "\<lambda>s :: Lock \<times> world. name (fst s) = name l \<and>
         leaseDuration (fst s) = leaseDuration l \<and>
         failIfLocked (fst s) = failIfLocked l \<and> keepOnRelease (fst s) = keepOnRelease l \<and>
         replaceData (fst s) = replaceData l \<and> isReleased (fst s) = isReleased l"
  have "?P (snd (err, l', w'))"
  proof (rule retry_invariant[where f = "tryAcquire c" and P = ?P, OF _ assms])
    fix s :: "Lock \<times> world" and e s'
    assume "tryAcquire c s = (e, s')" and "?P s"
    then show "?P s'"
      using tryAcquire_frame[of c "fst s" "snd s" e "fst s'" "snd s'"] by simp
  next
    show "?P (l, w)" by simp
  qed
  then show ?thesis by simp
qed

lemma retry_tryAcquire_NotAcquired:
  assumes "retry (tryAcquire c) (l, w) = Some (Some ErrNotAcquired, l', w')"
  shows "\<exists>r. locks w' (name l') = Some r \<and>
           record_version_number r = Some (recordVersionNumber l')"
proof -
  let ?Q = "\<lambda>e (s :: Lock \<times> world). e = Some ErrNotAcquired \<longrightarrow>
     (\<exists>r. locks (snd s) (name (fst s)) = Some r \<and>
           record_version_number r = Some (recordVersionNumber (fst s)))"
  have "?Q (fst (Some ErrNotAcquired, l', w')) (snd (Some ErrNotAcquired, l', w'))"
  proof (rule retry_result[where f = "tryAcquire c" and P = "\<lambda>s. True" and Q = ?Q, OF _ assms])
    fix s :: "Lock \<times> world" and e s'
    assume "tryAcquire c s = (e, s')"
    then show "True \<and> (\<not> errors_Is FailedPrecondition e \<longrightarrow> ?Q e s')"
      using tryAcquire_NotAcquired[of c "fst s" "snd s" "fst s'" "snd s'"] by auto
  qed simp
  then show ?thesis by simp
qed

lemma AcquireContext_loop_done:
  "ctx_Done w c \<Longrightarrow> AcquireContext_loop c l w = Some (None, Some ErrNotAcquired, w)"
  by (subst AcquireContext_loop.simps) simp

lemma AcquireContext_loop_step:
  assumes "\<not> ctx_Done w c" "retry (tryAcquire c) (l, w) = Some (err, l', w')"
  shows "AcquireContext_loop c l w =
     (if failIfLocked l' \<and> err = Some ErrNotAcquired then Some (Some l', err, w')
      else if err = Some ErrNotAcquired
      then AcquireContext_loop c l' (time_Sleep (leaseDuration l') w')
      else if err \<noteq> None then Some (None, err, w')
      else Some (Some l', None, w'))"
  using assms by (subst AcquireContext_loop.simps) simp

lemma AcquireContext_loop_handle:
  assumes ret: "AcquireContext_loop c l w = Some y"
  shows "\<forall>l' e w'. y = (Some l', Some e, w') \<longrightarrow> failIfLocked l \<and> e = ErrNotAcquired \<and>
           (\<exists>r. locks w' (name l) = Some r \<and>
                record_version_number r = Some (recordVersionNumber l'))"
proof (rule AcquireContext_loop.raw_induct[where P = "\<lambda>c l w y.
      \<forall>l' e w'. y = (Some l', Some e, w') \<longrightarrow> failIfLocked l \<and> e = ErrNotAcquired \<and>
           (\<exists>r. locks w' (name l) = Some r \<and>
                record_version_number r = Some (recordVersionNumber l'))", OF _ ret])
  fix loop :: "ctx \<Rightarrow> Lock \<Rightarrow> world \<Rightarrow> (Lock option \<times> error option \<times> world) option"
    and c l w y
  assume IH: "\<And>c l w y. loop c l w = Some y \<Longrightarrow>
      \<forall>l' e w'. y = (Some l', Some e, w') \<longrightarrow> failIfLocked l \<and> e = ErrNotAcquired \<and>
           (\<exists>r. locks w' (name l) = Some r \<and>
                record_version_number r = Some (recordVersionNumber l'))"
    and eq: "(if ctx_Done w c then Some (None, Some ErrNotAcquired, w)
      else Option.bind (retry (tryAcquire c) (l, w)) (\<lambda>(err, l', w').
          if failIfLocked l' \<and> err = Some ErrNotAcquired then Some (Some l', err, w')
          else if err = Some ErrNotAcquired
          then loop c l' (time_Sleep (leaseDuration l') w')
          else if err \<noteq> None then Some (None, err, w')
          else Some (Some l', None, w'))) = Some y"
  show "\<forall>l' e w'. y = (Some l', Some e, w') \<longrightarrow> failIfLocked l \<and> e = ErrNotAcquired \<and>
           (\<exists>r. locks w' (name l) = Some r \<and>
                record_version_number r = Some (recordVersionNumber l'))"
  proof (cases "ctx_Done w c")
    case True
    then show ?thesis using eq by auto
  next
    case False
    then obtain err l1 w1 where ret1: "retry (tryAcquire c) (l, w) = Some (err, l1, w1)"
      using eq by (cases "retry (tryAcquire c) (l, w)") auto
    note fr = retry_tryAcquire_frame[OF ret1]
    have eq': "(if failIfLocked l1 \<and> err = Some ErrNotAcquired then Some (Some l1, err, w1)
          else if err = Some ErrNotAcquired
          then loop c l1 (time_Sleep (leaseDuration l1) w1)
          else if err \<noteq> None then Some (None, err, w1)
          else Some (Some l1, None, w1)) = Some y"
      using eq False ret1 by simp
    show ?thesis
    proof (cases "err = Some ErrNotAcquired")
      case True
      show ?thesis
      proof (cases "failIfLocked l1")
        case fl: True
        then have "y = (Some l1, Some ErrNotAcquired, w1)" using eq' True by simp
        then show ?thesis
          using retry_tryAcquire_NotAcquired[OF ret1[unfolded True]] fr fl by auto
      next
        case fl: False
        then have "loop c l1 (time_Sleep (leaseDuration l1) w1) = Some y"
          using eq' True by simp
        from IH[OF this] fr show ?thesis by simp
      qed
    next
      case False
      then show ?thesis using eq' by (auto split: if_splits)
    qed
  qed
qed

lemma retry_tryAcquire_held:
  assumes nf: "no_faults 5 w" and row: "locks w (name l) = Some r"
    and held: "record_version_number r = Some v" "v \<noteq> recordVersionNumber l"
    and fresh: "v \<noteq> rvn_seq w"
  shows "retry (tryAcquire c) (l, w) =
    Some (Some ErrNotAcquired, l\<lparr>recordVersionNumber := v\<rparr>,
          w\<lparr>calls := calls w + 4, rvn_seq := rvn_seq w + 1\<rparr>)"
proof -
  have "tryAcquire c (l, w) =
    (Some ErrNotAcquired, l\<lparr>recordVersionNumber := v\<rparr>,
     w\<lparr>calls := calls w + 4, rvn_seq := rvn_seq w + 1\<rparr>)"
    using storeAcquire_held[OF nf row held fresh] by (simp add: tryAcquire_def)
  from retry_unfold[where f = "tryAcquire c", OF this] show ?thesis by simp
qed

lemma retry_tryAcquire_job:
  assumes "name l = ''job''" "recordVersionNumber l = 0"
  shows "retry (tryAcquire c) (l, held_by_other) =
    Some (Some ErrNotAcquired, l\<lparr>recordVersionNumber := 7\<rparr>,
          held_by_other\<lparr>calls := 4, rvn_seq := 9\<rparr>)"
  using retry_tryAcquire_held[OF no_faults_held_by_other, of l
      "\<lparr>record_version_number = Some 7, row_data = []\<rparr>" 7 c] assms
  by (simp add: held_by_other_job) (simp add: held_by_other_def world0_def)

lemma retry_tryAcquire_network_down:
  "retry (tryAcquire c) (l, network_down) =
     Some (Some (E Unavailable NetOpError ''cannot create transaction for lock acquisition''),
           l, network_down\<lparr>calls := 1\<rparr>)"
proof -
  have "tryAcquire c (l, network_down) =
     (Some (E Unavailable NetOpError ''cannot create transaction for lock acquisition''),
      l, network_down\<lparr>calls := 1\<rparr>)"
    by (simp add: tryAcquire_def storeAcquire_def driver_call_def network_down_def world0_def)
  from retry_unfold[where f = "tryAcquire c", OF this] show ?thesis by simp
qed

text \<open>
  C3. The wait loop of \<open>Acquire\<close>. When the caller's context is done at the top of
  the loop, \<open>Acquire\<close> returns \<open>ErrNotAcquired\<close> with no handle and without a call
  into the driver, in either mode. When the attempt (through \<open>retry\<close>) ends in
  \<open>ErrNotAcquired\<close>: with \<open>failIfLocked\<close> that error is returned at once; without
  it, \<open>Acquire\<close> sleeps one \<open>leaseDuration\<close> of the handle, exactly, and goes round
  the loop again with the handle the attempt left, and if the context is done after the
  sleep it returns \<open>ErrNotAcquired\<close>.
\<close>

theorem AcquireContext_wait_loop:
  "(ctx_Done w c \<longrightarrow> AcquireContext_loop c l w = Some (None, Some ErrNotAcquired, w)) \<and>
   (\<not> ctx_Done w c \<and> retry (tryAcquire c) (l, w) = Some (Some ErrNotAcquired, l', w') \<longrightarrow>
      leaseDuration l' = leaseDuration l \<and> failIfLocked l' = failIfLocked l \<and>
      (failIfLocked l \<longrightarrow>
         AcquireContext_loop c l w = Some (Some l', Some ErrNotAcquired, w')) \<and>
      (\<not> failIfLocked l \<longrightarrow>
         AcquireContext_loop c l w =
           AcquireContext_loop c l' (time_Sleep (leaseDuration l) w') \<and>
         sleeps (time_Sleep (leaseDuration l) w') = sleeps w' @ [leaseDuration l] \<and>
         (ctx_Done (time_Sleep (leaseDuration l) w') c \<longrightarrow>
            AcquireContext_loop c l w =
              Some (None, Some ErrNotAcquired, time_Sleep (leaseDuration l) w'))))"
proof (intro conjI impI)
  show "AcquireContext_loop c l w = Some (None, Some ErrNotAcquired, w)" if "ctx_Done w c"
    using that by (rule AcquireContext_loop_done)
next
  assume h: "\<not> ctx_Done w c \<and> retry (tryAcquire c) (l, w) = Some (Some ErrNotAcquired, l', w')"
  then have nd: "\<not> ctx_Done w c"
    and ret: "retry (tryAcquire c) (l, w) = Some (Some ErrNotAcquired, l', w')" by simp_all
  note fr = retry_tryAcquire_frame[OF ret]
  note st = AcquireContext_loop_step[OF nd ret]
  show "leaseDuration l' = leaseDuration l" "failIfLocked l' = failIfLocked l"
    using fr by simp_all
  show "AcquireContext_loop c l w = Some (Some l', Some ErrNotAcquired, w')" if "failIfLocked l"
    using st fr that by simp
  show a: "AcquireContext_loop c l w = AcquireContext_loop c l' (time_Sleep (leaseDuration l) w')"
    if "\<not> failIfLocked l"
    using st fr that by simp
  show "sleeps (time_Sleep (leaseDuration l) w') = sleeps w' @ [leaseDuration l]"
    by (simp add: time_Sleep_def)
  show "AcquireContext_loop c l w =
      Some (None, Some ErrNotAcquired, time_Sleep (leaseDuration l) w')"
    if "\<not> failIfLocked l" "ctx_Done (time_Sleep (leaseDuration l) w') c"
    using a[OF that(1)] AcquireContext_loop_done[OF that(2)] by simp
qed


theorem AcquireContext_wait_loop_witness:
  "AcquireContext (default_Client PqDriver) (CancelAt 0) ''job'' [] held_by_other =
     Some (None, Some ErrNotAcquired, held_by_other) \<and>
   AcquireContext (default_Client PqDriver) Background ''job'' [FailIfLocked] held_by_other =
     Some (Some ((newLock (default_Client PqDriver) ''job'' [FailIfLocked])\<lparr>recordVersionNumber := 7\<rparr>),
           Some ErrNotAcquired, held_by_other\<lparr>calls := 4, rvn_seq := 9\<rparr>) \<and>
   AcquireContext (default_Client PqDriver) (CancelAt 5) ''job'' [] held_by_other =
     Some (None, Some ErrNotAcquired,
           held_by_other\<lparr>calls := 4, rvn_seq := 9, clock := 20000000000,
                          sleeps := [20000000000]\<rparr>)"
proof -
  let ?cl = "default_Client PqDriver"
  have 1: "AcquireContext ?cl (CancelAt 0) ''job'' [] held_by_other =
     Some (None, Some ErrNotAcquired, held_by_other)"
    using AcquireContext_wait_loop[of held_by_other "CancelAt 0" "newLock ?cl ''job'' []",
        THEN conjunct1]
    by (simp add: AcquireContext_def)
  let ?l = "newLock ?cl ''job'' [FailIfLocked]"
  have l: "name ?l = ''job''" "recordVersionNumber ?l = 0" "failIfLocked ?l"
    by (simp_all add: newLock_def)
  have 2: "AcquireContext ?cl Background ''job'' [FailIfLocked] held_by_other =
     Some (Some (?l\<lparr>recordVersionNumber := 7\<rparr>),
           Some ErrNotAcquired, held_by_other\<lparr>calls := 4, rvn_seq := 9\<rparr>)"
    using AcquireContext_wait_loop[of held_by_other Background ?l
        "?l\<lparr>recordVersionNumber := 7\<rparr>" "held_by_other\<lparr>calls := 4, rvn_seq := 9\<rparr>",
        THEN conjunct2] retry_tryAcquire_job[OF l(1,2), of Background] l(3)
    by (simp add: AcquireContext_def)
  let ?m = "newLock ?cl ''job'' []"
  have m: "name ?m = ''job''" "recordVersionNumber ?m = 0" "\<not> failIfLocked ?m"
    "leaseDuration ?m = 20000000000"
    by (simp_all add: newLock_def default_Client_def DefaultLeaseDuration_def Second_def)
  have nd: "\<not> ctx_Done held_by_other (CancelAt 5)"
    by (simp add: held_by_other_def world0_def)
  have sl: "time_Sleep 20000000000 (held_by_other\<lparr>calls := 4, rvn_seq := 9\<rparr>) =
      held_by_other\<lparr>calls := 4, rvn_seq := 9, clock := 20000000000, sleeps := [20000000000]\<rparr>"
    by (simp add: time_Sleep_def held_by_other_def world0_def word_sless_alt)
  let ?w1 = "held_by_other\<lparr>calls := 4, rvn_seq := 9\<rparr>"
  have d: "ctx_Done (time_Sleep (leaseDuration ?m) ?w1) (CancelAt 5)"
    by (simp add: m(4) sl)
  have "AcquireContext_loop (CancelAt 5) ?m held_by_other =
      Some (None, Some ErrNotAcquired, time_Sleep (leaseDuration ?m) ?w1)"
    using AcquireContext_wait_loop[of held_by_other "CancelAt 5" ?m
        "?m\<lparr>recordVersionNumber := 7\<rparr>" ?w1, THEN conjunct2]
      retry_tryAcquire_job[OF m(1,2), of "CancelAt 5"] m(3) nd d
    by blast
  then have 3: "AcquireContext ?cl (CancelAt 5) ''job'' [] held_by_other =
     Some (None, Some ErrNotAcquired,
           held_by_other\<lparr>calls := 4, rvn_seq := 9, clock := 20000000000,
                          sleeps := [20000000000]\<rparr>)"
    by (simp add: AcquireContext_def m(4) sl)
  show ?thesis using 1 2 3 by simp
qed


text \<open>
  C10. The handle returned with an error. When \<open>Acquire\<close> runs with \<open>failIfLocked\<close>
  and the attempt ends in \<open>ErrNotAcquired\<close>, it returns that error with the handle,
  whose record version number is the one the row of the lock holds: the holder's. On
  every other path that returns an error the handle is \<open>nil\<close>: a handle comes with an
  error only with \<open>failIfLocked\<close> and \<open>ErrNotAcquired\<close>, and a context that is done
  gives \<open>ErrNotAcquired\<close> without a handle.
\<close>

theorem AcquireContext_failIfLocked_handle:
  "(\<not> ctx_Done w c \<and> failIfLocked l \<and>
      retry (tryAcquire c) (l, w) = Some (Some ErrNotAcquired, l', w') \<longrightarrow>
      AcquireContext_loop c l w = Some (Some l', Some ErrNotAcquired, w') \<and>
      (\<exists>r. locks w' (name l) = Some r \<and>
           record_version_number r = Some (recordVersionNumber l'))) \<and>
   (AcquireContext_loop c l w = Some (h, Some e, w'') \<and>
      \<not> (failIfLocked l \<and> e = ErrNotAcquired) \<longrightarrow> h = None) \<and>
   (AcquireContext_loop c l w = Some (Some l'', Some e, w'') \<longrightarrow>
      failIfLocked l \<and> e = ErrNotAcquired \<and>
      (\<exists>r. locks w'' (name l) = Some r \<and>
           record_version_number r = Some (recordVersionNumber l''))) \<and>
   (ctx_Done w c \<longrightarrow> AcquireContext_loop c l w = Some (None, Some ErrNotAcquired, w))"
proof (intro conjI impI)
  assume h: "\<not> ctx_Done w c \<and> failIfLocked l \<and>
      retry (tryAcquire c) (l, w) = Some (Some ErrNotAcquired, l', w')"
  then have ret: "retry (tryAcquire c) (l, w) = Some (Some ErrNotAcquired, l', w')" by simp
  show "AcquireContext_loop c l w = Some (Some l', Some ErrNotAcquired, w')"
    using AcquireContext_loop_step[of w c l "Some ErrNotAcquired" l' w'] h
      retry_tryAcquire_frame[OF ret] by simp
  show "\<exists>r. locks w' (name l) = Some r \<and>
           record_version_number r = Some (recordVersionNumber l')"
    using retry_tryAcquire_NotAcquired[OF ret] retry_tryAcquire_frame[OF ret] by simp
next
  assume "AcquireContext_loop c l w = Some (h, Some e, w'') \<and>
      \<not> (failIfLocked l \<and> e = ErrNotAcquired)"
  then show "h = None"
    using AcquireContext_loop_handle[of c l w "(h, Some e, w'')"] by (cases h) auto
next
  assume a: "AcquireContext_loop c l w = Some (Some l'', Some e, w'')"
  show "failIfLocked l" "e = ErrNotAcquired"
    "\<exists>r. locks w'' (name l) = Some r \<and>
           record_version_number r = Some (recordVersionNumber l'')"
    using AcquireContext_loop_handle[OF a] by simp_all
next
  show "AcquireContext_loop c l w = Some (None, Some ErrNotAcquired, w)" if "ctx_Done w c"
    using that by (rule AcquireContext_loop_done)
qed


theorem AcquireContext_failIfLocked_handle_witness:
  "AcquireContext (default_Client PqDriver) Background ''job'' [FailIfLocked] held_by_other =
     Some (Some ((newLock (default_Client PqDriver) ''job'' [FailIfLocked])\<lparr>recordVersionNumber := 7\<rparr>),
           Some ErrNotAcquired, held_by_other\<lparr>calls := 4, rvn_seq := 9\<rparr>) \<and>
   map_option (record_version_number)
     (locks (held_by_other\<lparr>calls := 4, rvn_seq := 9\<rparr>) ''job'') = Some (Some 7) \<and>
   AcquireContext (default_Client PqDriver) Background ''job'' [FailIfLocked] network_down =
     Some (None,
           Some (E Unavailable NetOpError ''cannot create transaction for lock acquisition''),
           network_down\<lparr>calls := 1\<rparr>)"
proof -
  let ?cl = "default_Client PqDriver"
  let ?l = "newLock ?cl ''job'' [FailIfLocked]"
  let ?w1 = "held_by_other\<lparr>calls := 4, rvn_seq := 9\<rparr>"
  let ?e = "E Unavailable NetOpError ''cannot create transaction for lock acquisition''"
  have l: "name ?l = ''job''" "recordVersionNumber ?l = 0" "failIfLocked ?l"
    by (simp_all add: newLock_def)
  have nd: "\<not> ctx_Done held_by_other Background" by simp
  have 1: "AcquireContext_loop Background ?l held_by_other =
      Some (Some (?l\<lparr>recordVersionNumber := 7\<rparr>), Some ErrNotAcquired, ?w1)"
    using AcquireContext_failIfLocked_handle[of held_by_other Background ?l
        "?l\<lparr>recordVersionNumber := 7\<rparr>" ?w1, THEN conjunct1]
      retry_tryAcquire_job[OF l(1,2), of Background] l(3) nd
    by blast
  have 2: "map_option (record_version_number) (locks ?w1 ''job'') = Some (Some 7)"
    by (simp add: held_by_other_def)
  have "\<exists>h. AcquireContext_loop Background ?l network_down =
      Some (h, Some ?e, network_down\<lparr>calls := 1\<rparr>)"
    using AcquireContext_loop_step[of network_down Background ?l, OF _ retry_tryAcquire_network_down]
    by simp
  then obtain h where 3: "AcquireContext_loop Background ?l network_down =
      Some (h, Some ?e, network_down\<lparr>calls := 1\<rparr>)" by blast
  have "h = None"
    using AcquireContext_failIfLocked_handle[where c = Background and l = ?l
        and w = network_down and h = h and e = ?e and w'' = "network_down\<lparr>calls := 1\<rparr>",
        THEN conjunct2, THEN conjunct1] 3
    by simp
  with 1 2 3 show ?thesis by (simp add: AcquireContext_def)
qed

subsection \<open>The released flag\<close>

lemma apply_LockOption_isReleased [simp]:
  "isReleased (apply_LockOption opt l) = isReleased l"
  by (cases opt) simp_all

lemma foldl_LockOption_isReleased:
  "isReleased (foldl (\<lambda>l opt. apply_LockOption opt l) l opts) = isReleased l"
  by (induction opts arbitrary: l) simp_all

lemma newLock_not_released: "\<not> isReleased (newLock cl n opts)"
  by (simp add: newLock_def foldl_LockOption_isReleased)

lemma storeHeartbeat_cases:
  assumes "storeHeartbeat (l, w) = (err, l', w')"
  shows "(err = None \<and> isReleased l' = isReleased l) \<or>
         (err = Some ErrLockAlreadyReleased \<and> l' = l\<lparr>isReleased := True\<rparr>) \<or>
         (l' = l \<and> (\<exists>d v. err = typedError (Some d) v))"
  using assms
  by (auto simp: storeHeartbeat_def driver_call_def getNextRVN_def Let_def
      split: option.splits prod.splits if_splits)

lemma storeHeartbeat_isReleased:
  assumes "storeHeartbeat (l, w) = (err, l', w')" "isReleased l"
  shows "isReleased l'"
  using storeHeartbeat_cases[OF assms(1)] assms(2) by auto

lemma storeRelease_isReleased:
  assumes "storeRelease (l, w) = (err, l', w')" "isReleased l"
  shows "isReleased l'"
  using storeRelease_cases[OF assms(1)] assms(2) by auto

lemma run_op_isReleased:
  assumes "run_op x l w = Some (err, l', w')" "isReleased l"
  shows "isReleased l'"
proof (cases x)
  case OpStoreAcquire
  then show ?thesis using assms storeAcquire_frame[of l w err l' w'] by simp
next
  case (OpTryAcquire c)
  then show ?thesis using assms tryAcquire_frame[of c l w err l' w'] by simp
next
  case OpStoreRelease
  then show ?thesis using assms storeRelease_isReleased[of l w err l' w'] by simp
next
  case OpRelease
  then show ?thesis using assms by (simp add: Release_def ReleaseContext_def IsReleased_def)
next
  case OpStoreHeartbeat
  then show ?thesis using assms storeHeartbeat_isReleased[of l w err l' w'] by simp
next
  case OpSendHeartbeat
  then obtain y where ret: "retry storeHeartbeat (l, w) = Some y"
    and y: "l' = fst (snd y)"
    using assms(1) by (auto simp: SendHeartbeat_def split: prod.splits)
  have "isReleased (fst (snd y))"
  proof (rule retry_invariant[where f = storeHeartbeat and P = "\<lambda>s. isReleased (fst s)", OF _ ret])
    fix s :: "Lock \<times> world" and e s'
    assume "storeHeartbeat s = (e, s')" "isReleased (fst s)"
    then show "isReleased (fst s')"
      using storeHeartbeat_isReleased[of "fst s" "snd s" e "fst s'" "snd s'"] by simp
  next
    show "isReleased (fst (l, w))" using assms(2) by simp
  qed
  then show ?thesis using y by simp
qed

lemma run_ops_isReleased:
  "run_ops xs l w = Some (l', w') \<Longrightarrow> isReleased l \<Longrightarrow> isReleased l'"
proof (induction xs arbitrary: l w)
  case Nil
  then show ?case by simp
next
  case (Cons x xs)
  then obtain err l1 w1 where 1: "run_op x l w = Some (err, l1, w1)"
    and 2: "run_ops xs l1 w1 = Some (l', w')"
    by (auto split: option.splits)
  from run_op_isReleased[OF 1 Cons.prems(2)] Cons.IH[OF 2] show ?case by simp
qed

text \<open>
  C9. The \<open>isReleased\<close> flag is monotonic. A handle from \<open>newLock\<close> starts with
  the flag clear, whatever its options. \<open>storeRelease\<close> sets it on both of its paths
  that do not end in a driver error (success, and zero rows affected, which returns
  \<open>ErrLockAlreadyReleased\<close>), and \<open>storeHeartbeat\<close> sets it when it detects the loss
  of the lock (zero rows affected). Once the flag is set, no sequence of operations of
  the client on the handle (attempts to acquire, releases, heartbeats, directly or through
  the retry loop) clears it.
\<close>

theorem isReleased_monotonic:
  "\<not> isReleased (newLock cl n opts) \<and>
   (storeRelease (l, w) = (err, l', w') \<and> (err = None \<or> err = Some ErrLockAlreadyReleased)
      \<longrightarrow> isReleased l') \<and>
   (storeHeartbeat (l, w) = (Some ErrLockAlreadyReleased, l', w') \<longrightarrow> isReleased l') \<and>
   (run_ops xs l w = Some (l', w') \<and> isReleased l \<longrightarrow> isReleased l')"
proof (intro conjI impI)
  show "\<not> isReleased (newLock cl n opts)" by (rule newLock_not_released)
  show "isReleased l'"
    if "storeRelease (l, w) = (err, l', w') \<and> (err = None \<or> err = Some ErrLockAlreadyReleased)"
    using that storeRelease_sets_isReleased[of l w err l' w'] by simp
  show "isReleased l'" if "storeHeartbeat (l, w) = (Some ErrLockAlreadyReleased, l', w')"
    using storeHeartbeat_cases[OF that] typedError_not_client_error(1)[symmetric]
    by auto
  show "isReleased l'" if "run_ops xs l w = Some (l', w') \<and> isReleased l"
    using that run_ops_isReleased[of xs l w l' w'] by simp
qed


theorem isReleased_monotonic_witness:
  "storeHeartbeat (job_holder\<lparr>recordVersionNumber := 3\<rparr>, held_by_other) =
     (Some ErrLockAlreadyReleased, job_holder\<lparr>recordVersionNumber := 3, isReleased := True\<rparr>,
      held_by_other\<lparr>calls := 4, rvn_seq := 9\<rparr>) \<and>
   (case run_ops [OpTryAcquire Background, OpStoreHeartbeat]
           (job_holder\<lparr>recordVersionNumber := 3, isReleased := True\<rparr>)
           (held_by_other\<lparr>calls := 4, rvn_seq := 9\<rparr>) of
      None \<Rightarrow> False
    | Some (l', w') \<Rightarrow> isReleased l')"
proof -
  let ?l = "job_holder\<lparr>recordVersionNumber := 3\<rparr>"
  let ?l1 = "job_holder\<lparr>recordVersionNumber := 3, isReleased := True\<rparr>"
  let ?w1 = "held_by_other\<lparr>calls := 4, rvn_seq := 9\<rparr>"
  have 1: "storeHeartbeat (?l, held_by_other) = (Some ErrLockAlreadyReleased, ?l1, ?w1)"
    using storeHeartbeat_lost[OF no_faults_held_by_other, of ?l]
    by (simp add: job_holder_fields held_by_other_job) (simp add: held_by_other_def world0_def)
  have r1: "isReleased ?l1"
    using isReleased_monotonic[where l = ?l and w = held_by_other and l' = ?l1 and w' = ?w1,
        THEN conjunct2, THEN conjunct2, THEN conjunct1] 1 by blast
  obtain e2 l2 w2 where 2: "tryAcquire Background (?l1, ?w1) = (e2, l2, w2)"
    by (cases "tryAcquire Background (?l1, ?w1)")
  obtain e3 l3 w3 where 3: "storeHeartbeat (l2, w2) = (e3, l3, w3)"
    by (cases "storeHeartbeat (l2, w2)")
  have run: "run_ops [OpTryAcquire Background, OpStoreHeartbeat] ?l1 ?w1 = Some (l3, w3)"
    using 2 3 by simp
  have "isReleased l3"
    using isReleased_monotonic[where xs = "[OpTryAcquire Background, OpStoreHeartbeat]"
        and l = ?l1 and w = ?w1 and l' = l3 and w' = w3,
        THEN conjunct2, THEN conjunct2, THEN conjunct2] run r1 by blast
  with 1 run show ?thesis by simp
qed

subsection \<open>Clients side by side\<close>




lemma call_cancel_seq [simp]: "rvn_seq (call_cancel h w) = rvn_seq w"
  by (cases h) simp_all









subsection \<open>The retry loop without an end\<close>

text \<open>
  The loop has no bound: when every attempt ends in a serialization failure, \<open>retry\<close>
  does not return.
\<close>

lemma retry_diverges:
  assumes "\<And>s. errors_Is FailedPrecondition (fst (f s))"
  shows "retry f s = None"
proof (cases "retry f s")
  case None
  then show ?thesis .
next
  case (Some y)
  have False
  proof (rule retry_result[where f = f and P = "\<lambda>s. True" and Q = "\<lambda>e s. False", OF _ Some])
    fix s e s'
    assume "f s = (e, s')"
    then show "True \<and> (\<not> errors_Is FailedPrecondition e \<longrightarrow> False)"
      using assms[of s] by simp
  qed simp
  then show ?thesis ..
qed

subsection \<open>Cancelling the heartbeat\<close>

text \<open>The context of the heartbeat is done once its cancel function has been called.\<close>

lemma call_cancel_Done:
  "ctx_Done (call_cancel (Some i) w) (WithCancel i parent)"
  by simp

lemma call_cancel_fields [simp]:
  "locks (call_cancel h w) = locks w" "calls (call_cancel h w) = calls w"
  by (cases h; simp)+

subsection \<open>The invariant of the table\<close>

text \<open>
  Every transaction of the client keeps the version numbers of the table below the next
  value of the sequence, and so does every schedule; the empty table has the property.
\<close>

lemma rvns_drawnD':
  "rvns_drawn w \<Longrightarrow> locks w n = Some r \<Longrightarrow> record_version_number r = Some v \<Longrightarrow> v \<le> rvn_seq w"
  by (auto simp: rvns_drawn_def dest: less_imp_le)

lemma rvns_drawnI:
  "(\<And>n r v. locks w n = Some r \<Longrightarrow> record_version_number r = Some v \<Longrightarrow> v < rvn_seq w)
   \<Longrightarrow> rvns_drawn w"
  by (auto simp: rvns_drawn_def)

lemma storeAcquire_rvns_drawn:
  assumes "storeAcquire l w = (err, l', w')" "rvns_drawn w"
  shows "rvns_drawn w'"
proof (rule rvns_drawnI)
  fix n r v
  assume "locks w' n = Some r" "record_version_number r = Some v"
  with assms show "v < rvn_seq w'"
    by (auto simp: storeAcquire_def driver_call_def getNextRVN_def scan_rvn_data_def Let_def
      upsert_def
      split: option.splits prod.splits if_splits sum.splits
      dest: rvns_drawnD rvns_drawnD')
qed

lemma storeHeartbeat_rvns_drawn:
  assumes "storeHeartbeat (l, w) = (err, l', w')" "rvns_drawn w"
  shows "rvns_drawn w'"
proof (rule rvns_drawnI)
  fix n r v
  assume "locks w' n = Some r" "record_version_number r = Some v"
  with assms show "v < rvn_seq w'"
    by (auto simp: storeHeartbeat_def driver_call_def getNextRVN_def Let_def
      update_rvn_def
      split: option.splits prod.splits if_splits
      dest: rvns_drawnD rvns_drawnD')
qed

lemma storeRelease_rvns_drawn:
  assumes "storeRelease (l, w) = (err, l', w')" "rvns_drawn w"
  shows "rvns_drawn w'"
proof (rule rvns_drawnI)
  fix n r v
  assume "locks w' n = Some r" "record_version_number r = Some v"
  with assms show "v < rvn_seq w'"
    by (auto simp: storeRelease_def driver_call_def Let_def
      update_rvn_def delete_free_def
      split: option.splits prod.splits if_splits
      dest: rvns_drawnD rvns_drawnD')
qed

lemma rvns_drawn_world0: "rvns_drawn world0"
  by (simp add: rvns_drawn_def world0_def)


lemma tryAcquire_rvns_drawn:
  assumes "tryAcquire c (l, w) = (err, l', w')" "rvns_drawn w"
  shows "rvns_drawn w'"
proof -
  obtain e1 l1 w1 where sa: "storeAcquire l w = (e1, l1, w1)" by (cases "storeAcquire l w")
  from storeAcquire_rvns_drawn[OF sa assms(2)] assms(1) sa show ?thesis
    by (cases e1) (auto simp: tryAcquire_def rvns_drawn_def)
qed

lemma sched_step_rvns_drawn:
  assumes "rvns_drawn (fst (snd st))"
  shows "rvns_drawn (fst (snd (sched_step cl x st)))"
proof -
  obtain hs w tr where st: "st = (hs, w, tr)" by (cases st)
  obtain i op where x: "x = (i, op)" by (cases x)
  show ?thesis
  proof (cases op)
    case (SNewLock n opts)
    then show ?thesis using assms st x by simp
  next
    case SAcquire
    obtain e l' w' where t: "tryAcquire Background (hs i, w) = (e, l', w')"
      by (cases "tryAcquire Background (hs i, w)")
    from tryAcquire_rvns_drawn[OF t] assms st x SAcquire t show ?thesis
      by (cases e) simp_all
  next
    case SHeartbeat
    obtain e l' w' where t: "storeHeartbeat (hs i, w) = (e, l', w')"
      by (cases "storeHeartbeat (hs i, w)")
    from storeHeartbeat_rvns_drawn[OF t] assms st x SHeartbeat t show ?thesis by simp
  next
    case SRelease
    obtain e l' w' where t: "storeRelease (hs i, w) = (e, l', w')"
      by (cases "storeRelease (hs i, w)")
    from storeRelease_rvns_drawn[OF t] assms st x SRelease t show ?thesis by simp
  qed
qed

lemma sched_run_rvns_drawn:
  "rvns_drawn (fst (snd st)) \<Longrightarrow> rvns_drawn (fst (snd (sched_run cl sch st)))"
  by (induction sch arbitrary: st) (simp_all add: sched_step_rvns_drawn)

subsection \<open>Taking over a lock\<close>

text \<open>
  A waiting \<open>Acquire\<close> against a holder that has gone silent: the first attempt is
  refused and leaves the holder's version number 7 on the handle, \<open>Acquire\<close> sleeps
  one lease of 20 seconds, and the second attempt, whose claimant number now matches
  the row, takes the lock with version number 9 and starts the heartbeat.
\<close>

lemma retry_tryAcquire_claimable:
  assumes nf: "no_faults 5 w" and row: "locks w (name l) = Some r"
    and ok: "record_version_number r = None \<or> record_version_number r = Some (recordVersionNumber l)"
  shows "retry (tryAcquire c) (l, w) =
    Some (None,
      l\<lparr>recordVersionNumber := rvn_seq w,
        data := (if replaceData l then data l else row_data r),
        heartbeatCancel := Some (ctx_count w)\<rparr>,
      w\<lparr>calls := calls w + 5, rvn_seq := rvn_seq w + 1,
        locks := (locks w)(name l \<mapsto> \<lparr>record_version_number = Some (rvn_seq w),
                  row_data = (if replaceData l then data l else row_data r)\<rparr>),
        ctx_count := Suc (ctx_count w),
        goroutines := goroutines w @ [WithCancel (ctx_count w) c]\<rparr>)"
proof -
  have "tryAcquire c (l, w) =
    (None,
      l\<lparr>recordVersionNumber := rvn_seq w,
        data := (if replaceData l then data l else row_data r),
        heartbeatCancel := Some (ctx_count w)\<rparr>,
      w\<lparr>calls := calls w + 5, rvn_seq := rvn_seq w + 1,
        locks := (locks w)(name l \<mapsto> \<lparr>record_version_number = Some (rvn_seq w),
                  row_data = (if replaceData l then data l else row_data r)\<rparr>),
        ctx_count := Suc (ctx_count w),
        goroutines := goroutines w @ [WithCancel (ctx_count w) c]\<rparr>)"
    using storeAcquire_claimable[OF nf row ok] by (simp add: tryAcquire_def)
  from retry_unfold[where f = "tryAcquire c", OF this] show ?thesis by simp
qed

lemma takeover_after_one_lease:
  "AcquireContext (default_Client PqDriver) Background ''job'' [] held_by_other =
     Some (Some ((newLock (default_Client PqDriver) ''job'' [])
                   \<lparr>recordVersionNumber := 9, heartbeatCancel := Some 0\<rparr>),
           None,
           held_by_other\<lparr>calls := 9, rvn_seq := 10,
             locks := [''job'' \<mapsto> \<lparr>record_version_number = Some 9, row_data = []\<rparr>],
             ctx_count := 1, goroutines := [WithCancel 0 Background],
             clock := 20000000000, sleeps := [20000000000]\<rparr>)"
proof -
  let ?m = "newLock (default_Client PqDriver) ''job'' []"
  let ?w1 = "held_by_other\<lparr>calls := 4, rvn_seq := 9\<rparr>"
  let ?w2 = "held_by_other\<lparr>calls := 4, rvn_seq := 9, clock := 20000000000,
      sleeps := [20000000000]\<rparr>"
  have m: "name ?m = ''job''" "recordVersionNumber ?m = 0" "\<not> failIfLocked ?m"
    "leaseDuration ?m = 20000000000" "\<not> replaceData ?m" "data ?m = []"
    by (simp_all add: newLock_def default_Client_def DefaultLeaseDuration_def Second_def)
  have sl: "time_Sleep 20000000000 ?w1 = ?w2"
    by (simp add: time_Sleep_def held_by_other_def world0_def word_sless_alt)
  have 1: "AcquireContext_loop Background ?m held_by_other =
      AcquireContext_loop Background (?m\<lparr>recordVersionNumber := 7\<rparr>) ?w2"
    using AcquireContext_loop_step[of held_by_other Background ?m,
        OF _ retry_tryAcquire_job[OF m(1,2)]] m(3,4) sl
    by simp
  have nf: "no_faults 5 ?w2" by (simp add: no_faults_def held_by_other_def world0_def)
  have 2: "retry (tryAcquire Background) (?m\<lparr>recordVersionNumber := 7\<rparr>, ?w2) =
      Some (None, ?m\<lparr>recordVersionNumber := 9, heartbeatCancel := Some 0\<rparr>,
           held_by_other\<lparr>calls := 9, rvn_seq := 10,
             locks := [''job'' \<mapsto> \<lparr>record_version_number = Some 9, row_data = []\<rparr>],
             ctx_count := 1, goroutines := [WithCancel 0 Background],
             clock := 20000000000, sleeps := [20000000000]\<rparr>)"
    using retry_tryAcquire_claimable[OF nf, of "?m\<lparr>recordVersionNumber := 7\<rparr>"
        "\<lparr>record_version_number = Some 7, row_data = []\<rparr>" Background] m
    by (simp add: held_by_other_job) (simp add: held_by_other_def world0_def newLock_def)
  show ?thesis
    unfolding AcquireContext_def 1
    using AcquireContext_loop_step[of ?w2 Background "?m\<lparr>recordVersionNumber := 7\<rparr>", OF _ 2]
    by simp
qed

end
